theory Spec2Isabelle
  imports Complex_Main
begin

section \<open>Strings\<close>

text \<open>
  A JavaScript string is modelled as a \<open>string\<close>; one \<open>char\<close> stands for one code unit
  of the Latin-1 range. \<open>is_space\<close> is the white space that \<open>String.prototype.trim\<close> and
  the regular expression class \<open>\s\<close> recognise in that range.
\<close>

definition is_space :: "char \<Rightarrow> bool" where
  "is_space c = (of_char c \<in> {9, 10, 11, 12, 13, 32, 160 :: nat})"

definition trim :: "string \<Rightarrow> string" where
  "trim s = rev (dropWhile is_space (rev (dropWhile is_space s)))"

definition slice0 :: "nat \<Rightarrow> string \<Rightarrow> string" where
  \<comment> \<open>\<open>s.slice(0, n)\<close>\<close>
  "slice0 n s = take n s"

definition lower_char :: "char \<Rightarrow> char" where
  "lower_char c =
     (let n = (of_char c :: nat)
      in if (65 \<le> n \<and> n \<le> 90) \<or> (192 \<le> n \<and> n \<le> 222 \<and> n \<noteq> 215)
         then char_of (n + 32) else c)"

definition toLowerCase :: "string \<Rightarrow> string" where
  "toLowerCase s = map lower_char s"

text \<open>\<open>s.split(/\s+/)\<close> on a trimmed string, followed by dropping empty pieces.\<close>

fun split_ws :: "string \<Rightarrow> string \<Rightarrow> string list" where
  "split_ws cur [] = (if cur = [] then [] else [cur])"
| "split_ws cur (c # cs) =
     (if is_space c then (if cur = [] then split_ws [] cs else cur # split_ws [] cs)
      else split_ws (cur @ [c]) cs)"

fun join :: "string \<Rightarrow> string list \<Rightarrow> string" where
  "join sep [] = []"
| "join sep [x] = x"
| "join sep (x # y # ys) = x @ sep @ join sep (y # ys)"

definition digit_char :: "nat \<Rightarrow> char" where
  "digit_char d = char_of (48 + d)"

function show_nat :: "nat \<Rightarrow> string" where
  "show_nat n = (if n < 10 then [digit_char n] else show_nat (n div 10) @ [digit_char (n mod 10)])"
  by pat_completeness auto
termination
  by (relation "measure id") auto

section \<open>The document\<close>

text \<open>
  A node carries a reference \<open>nref\<close>, its identity: \<open>===\<close> on nodes compares references.
  \<open>className\<close> is \<open>None\<close> where the property is not a string (SVG elements), \<open>src\<close> is the
  \<open>src\<close> property (\<open>None\<close> where the element has none), \<open>style\<close> the inline style
  declaration as a list of property names and values.
\<close>

type_synonym ref = nat

datatype node =
    Element (nref: ref) (tagName: string) (ident: string) (className: "string option")
            (src: "string option") (style: "(string \<times> string) list") (childNodes: "node list")
  | Text (nref: ref) (data: string)
  | Comment (nref: ref) (data: string)
  | Document (nref: ref) (childNodes: "node list")
where
  "tagName (Text r d) = []"
| "tagName (Comment r d) = []"
| "tagName (Document r ks) = []"
| "ident (Text r d) = []"
| "ident (Comment r d) = []"
| "ident (Document r ks) = []"
| "className (Text r d) = None"
| "className (Comment r d) = None"
| "className (Document r ks) = None"
| "src (Text r d) = None"
| "src (Comment r d) = None"
| "src (Document r ks) = None"
| "style (Text r d) = []"
| "style (Comment r d) = []"
| "style (Document r ks) = []"
| "childNodes (Text r d) = []"
| "childNodes (Comment r d) = []"
| "data (Element r t i c s y ks) = []"
| "data (Document r ks) = []"

fun nodeType :: "node \<Rightarrow> nat" where
  "nodeType (Element r t i c s y ks) = 1"
| "nodeType (Text r d) = 3"
| "nodeType (Comment r d) = 8"
| "nodeType (Document r ks) = 9"

definition ELEMENT_NODE :: nat where "ELEMENT_NODE = 1"
definition TEXT_NODE :: nat where "TEXT_NODE = 3"

text \<open>
  A value of type \<open>HTMLElement | null\<close> is a chain: \<open>[]\<close> is \<open>null\<close>, and \<open>n # up\<close> is the
  node \<open>n\<close> whose \<open>parentNode\<close> is the chain \<open>up\<close>.
\<close>

type_synonym element = "node list"

definition children :: "node \<Rightarrow> node list" where
  \<comment> \<open>\<open>parent.children\<close>: the child nodes that are elements\<close>
  "children p = filter (\<lambda>k. nodeType k = ELEMENT_NODE) (childNodes p)"

text \<open>The text of the \<open>Text\<close> descendants in tree order, and the \<open>textContent\<close> getter.\<close>

fun descendant_text :: "node \<Rightarrow> string" where
  "descendant_text (Element r t i c s y ks) = concat (map descendant_text ks)"
| "descendant_text (Text r d) = d"
| "descendant_text (Comment r d) = []"
| "descendant_text (Document r ks) = concat (map descendant_text ks)"

fun textContent :: "node \<Rightarrow> string option" where
  "textContent (Element r t i c s y ks) = Some (concat (map descendant_text ks))"
| "textContent (Text r d) = Some d"
| "textContent (Comment r d) = Some d"
| "textContent (Document r ks) = None"

section \<open>What the browser provides\<close>

datatype error = SyntaxError | TypeError

record domRect =
  rect_top :: real
  rect_left :: real
  rect_width :: real
  rect_height :: real

text \<open>
  The functions of the host that the program calls and does not define. The document
  they read is an argument. Numbers are idealised as reals; \<open>numToString\<close> is the
  conversion of a number to a string in \<open>rect.top + 'px'\<close>. \<open>setStyleProperty y k v\<close> is
  the assignment \<open>style[k] = v\<close> to an inline style declaration \<open>y\<close> with a name and a
  value that come from outside: the browser gives the declaration that results (the
  same one when it ignores an unknown name or an invalid value) or throws (a read-only
  name). \<open>resolveURL\<close> is the URL that the \<open>src\<close> property holds after an assignment.
\<close>

record browser =
  cssEscape :: "string \<Rightarrow> string"
  querySelector :: "node \<Rightarrow> string \<Rightarrow> error + ref option"
  getBoundingClientRect :: "node \<Rightarrow> ref \<Rightarrow> domRect"
  getComputedStyle :: "node \<Rightarrow> ref \<Rightarrow> string \<Rightarrow> string"
  scrollX :: real
  scrollY :: real
  numToString :: "real \<Rightarrow> string"
  setStyleProperty :: "(string \<times> string) list \<Rightarrow> string \<Rightarrow> string \<Rightarrow> error + (string \<times> string) list"
  resolveURL :: "string \<Rightarrow> string"

section \<open>Identity resolver\<close>

text \<open>The loop of \<open>getXPath\<close> over the siblings: the count \<open>ix\<close> when the element is met.\<close>

fun xpath_scan :: "node \<Rightarrow> node list \<Rightarrow> nat \<Rightarrow> nat option" where
  "xpath_scan e [] ix = None"
| "xpath_scan e (sibling # rest) ix =
     (if nref sibling = nref e then Some ix
      else if nodeType sibling = 1 \<and> tagName sibling = tagName e
           then xpath_scan e rest (ix + 1)
           else xpath_scan e rest ix)"

fun getXPath :: "ref \<Rightarrow> element \<Rightarrow> string" where
  "getXPath body [] = []"
| "getXPath body (e # up) =
     (if ident e \<noteq> [] then ''//*[@id=\"'' @ ident e @ ''\"]''
      else if nref e = body then ''/html/body''
      else (case up of
              [] \<Rightarrow> []
            | parent # _ \<Rightarrow>
                (case xpath_scan e (childNodes parent) 0 of
                   None \<Rightarrow> []
                 | Some ix \<Rightarrow>
                     getXPath body up @ ''/'' @ toLowerCase (tagName e)
                       @ ''['' @ show_nat (ix + 1) @ '']'')))"

definition class_part :: "browser \<Rightarrow> node \<Rightarrow> string" where
  "class_part B current =
     (case className current of
        None \<Rightarrow> []
      | Some cn \<Rightarrow>
          if cn = [] then []
          else (let classes = filter (\<lambda>c. c \<noteq> [] \<and> CHR '':'' \<notin> set c) (split_ws [] (trim cn))
                in if length classes > 0
                   then ''.'' @ join ''.'' (map (cssEscape B) (take 2 classes))
                   else []))"

fun index_of :: "ref \<Rightarrow> node list \<Rightarrow> nat \<Rightarrow> nat" where
  \<comment> \<open>\<open>siblings.indexOf(current) + 1\<close>, counting from \<open>i\<close>; 0 when absent\<close>
  "index_of r [] i = 0"
| "index_of r (k # ks) i = (if nref k = r then i + 1 else index_of r ks (i + 1))"

definition nth_part :: "node \<Rightarrow> element \<Rightarrow> string" where
  "nth_part current up =
     (case up of
        [] \<Rightarrow> []
      | parent # _ \<Rightarrow>
          (let siblings = filter (\<lambda>el. tagName el = tagName current) (children parent)
           in if length siblings > 1
              then '':nth-of-type('' @ show_nat (index_of (nref current) siblings 0) @ '')''
              else []))"

text \<open>The \<open>while\<close> loop of \<open>getSelector\<close>, with the path built so far.\<close>

fun selector_walk :: "browser \<Rightarrow> ref \<Rightarrow> element \<Rightarrow> string list \<Rightarrow> string list" where
  "selector_walk B body [] path = path"
| "selector_walk B body (current # up) path =
     (if nodeType current \<noteq> ELEMENT_NODE then path
      else if ident current \<noteq> [] then (''#'' @ cssEscape B (ident current)) # path
      else (let selector = toLowerCase (tagName current) @ class_part B current
                             @ nth_part current up;
                path' = selector # path
            in (case up of
                  [] \<Rightarrow> path'
                | parent # _ \<Rightarrow>
                    if nref parent = body then ''body'' # path'
                    else selector_walk B body up path')))"

fun getSelector :: "browser \<Rightarrow> ref \<Rightarrow> element \<Rightarrow> string" where
  "getSelector B body [] = []"
| "getSelector B body (e # up) =
     (if ident e \<noteq> [] then ''#'' @ cssEscape B (ident e)
      else join '' > '' (selector_walk B body (e # up) []))"

section \<open>Inspector\<close>

record elementComputedStyles =
  color :: string
  backgroundColor :: string
  fontSize :: string
  fontWeight :: string
  padding :: string
  margin :: string
  fontFamily :: string
  lineHeight :: string
  borderRadius :: string

record elementBoundingRect =
  top_br :: real
  left_br :: real
  width_br :: real
  height_br :: real
  viewportTop :: real
  viewportLeft :: real

text \<open>
  The descriptor. \<open>className_info\<close> is the class string of the element, or \<open>None\<close> for the
  object that an SVG element has in its place.
\<close>

record elementInfo =
  tagName_info :: string
  textContent_info :: "string option"
  className_info :: "string option"
  id_info :: string
  xpath :: string
  selector :: string
  computedStyles :: elementComputedStyles
  boundingRect :: elementBoundingRect
  isTextElement :: bool
  isImageElement :: bool
  imageSrc :: "string option"

definition textTags :: "string list" where
  "textTags = [''p'', ''h1'', ''h2'', ''h3'', ''h4'', ''h5'', ''h6'', ''span'', ''a'',
               ''button'', ''label'', ''li'', ''td'', ''th'', ''div'']"

definition nonblank_text_node :: "node \<Rightarrow> bool" where
  \<comment> \<open>\<open>n.nodeType === Node.TEXT_NODE && n.textContent?.trim()\<close>\<close>
  "nonblank_text_node n =
     (nodeType n = TEXT_NODE \<and>
      (case textContent n of None \<Rightarrow> False | Some t \<Rightarrow> trim t \<noteq> []))"

definition is_text_element :: "node \<Rightarrow> bool" where
  "is_text_element e =
     (toLowerCase (tagName e) \<in> set textTags \<and>
      length (childNodes e) > 0 \<and>
      list_ex nonblank_text_node (childNodes e))"

definition is_image_element :: "browser \<Rightarrow> node \<Rightarrow> node \<Rightarrow> bool" where
  "is_image_element B doc e =
     (let tag = toLowerCase (tagName e);
          styles = getComputedStyle B doc (nref e)
      in tag = ''img'' \<or>
         (tag = ''div'' \<and> styles ''backgroundImage'' \<noteq> [] \<and> styles ''backgroundImage'' \<noteq> ''none''))"

fun getElementInfo :: "browser \<Rightarrow> node \<Rightarrow> ref \<Rightarrow> element \<Rightarrow> elementInfo option" where
  "getElementInfo B doc body [] = None"
| "getElementInfo B doc body (e # up) =
     (let rect = getBoundingClientRect B doc (nref e);
          styles = getComputedStyle B doc (nref e);
          tag = toLowerCase (tagName e);
          isText = is_text_element e;
          isImage = is_image_element B doc e
      in Some \<lparr>
           tagName_info = tag,
           textContent_info =
             (if isText
              then (case textContent e of
                      None \<Rightarrow> None
                    | Some t \<Rightarrow> (let v = slice0 200 (trim t) in if v = [] then None else Some v))
              else None),
           className_info = className e,
           id_info = ident e,
           xpath = getXPath body (e # up),
           selector = getSelector B body (e # up),
           computedStyles = \<lparr>
             color = styles ''color'',
             backgroundColor = styles ''backgroundColor'',
             fontSize = styles ''fontSize'',
             fontWeight = styles ''fontWeight'',
             padding = styles ''padding'',
             margin = styles ''margin'',
             fontFamily = styles ''fontFamily'',
             lineHeight = styles ''lineHeight'',
             borderRadius = styles ''borderRadius'' \<rparr>,
           boundingRect = \<lparr>
             top_br = rect_top rect + scrollY B,
             left_br = rect_left rect + scrollX B,
             width_br = rect_width rect,
             height_br = rect_height rect,
             viewportTop = rect_top rect,
             viewportLeft = rect_left rect \<rparr>,
           isTextElement = isText,
           isImageElement = isImage,
           imageSrc = (if tag = ''img'' then src e else None) \<rparr>)"

section \<open>Changing the document\<close>

text \<open>
  \<open>update_node r f\<close> applies \<open>f\<close> to the node with reference \<open>r\<close>, \<open>remove_node r\<close> takes
  the node with reference \<open>r\<close> out of the child list of its parent (\<open>node.remove()\<close>), and
  \<open>find_node r\<close> reads the node with reference \<open>r\<close>.
\<close>

fun update_node :: "ref \<Rightarrow> (node \<Rightarrow> node) \<Rightarrow> node \<Rightarrow> node" where
  "update_node r f (Element r' t i c s y ks) =
     (if r' = r then f (Element r' t i c s y ks)
      else Element r' t i c s y (map (update_node r f) ks))"
| "update_node r f (Text r' d) = (if r' = r then f (Text r' d) else Text r' d)"
| "update_node r f (Comment r' d) = (if r' = r then f (Comment r' d) else Comment r' d)"
| "update_node r f (Document r' ks) =
     (if r' = r then f (Document r' ks) else Document r' (map (update_node r f) ks))"

fun remove_node :: "ref \<Rightarrow> node \<Rightarrow> node" where
  "remove_node r (Element r' t i c s y ks) =
     Element r' t i c s y (map (remove_node r) (filter (\<lambda>k. nref k \<noteq> r) ks))"
| "remove_node r (Text r' d) = Text r' d"
| "remove_node r (Comment r' d) = Comment r' d"
| "remove_node r (Document r' ks) =
     Document r' (map (remove_node r) (filter (\<lambda>k. nref k \<noteq> r) ks))"

fun first_some :: "'a option list \<Rightarrow> 'a option" where
  "first_some [] = None"
| "first_some (None # xs) = first_some xs"
| "first_some (Some x # xs) = Some x"

fun find_node :: "ref \<Rightarrow> node \<Rightarrow> node option" where
  "find_node r (Element r' t i c s y ks) =
     (if r' = r then Some (Element r' t i c s y ks) else first_some (map (find_node r) ks))"
| "find_node r (Text r' d) = (if r' = r then Some (Text r' d) else None)"
| "find_node r (Comment r' d) = (if r' = r then Some (Comment r' d) else None)"
| "find_node r (Document r' ks) =
     (if r' = r then Some (Document r' ks) else first_some (map (find_node r) ks))"

text \<open>The references of the nodes below a node.\<close>

fun refs_below :: "node \<Rightarrow> ref list" where
  "refs_below (Element r t i c s y ks) = concat (map (\<lambda>k. nref k # refs_below k) ks)"
| "refs_below (Text r d) = []"
| "refs_below (Comment r d) = []"
| "refs_below (Document r ks) = concat (map (\<lambda>k. nref k # refs_below k) ks)"

fun setProperty :: "string \<Rightarrow> string \<Rightarrow> (string \<times> string) list \<Rightarrow> (string \<times> string) list" where
  "setProperty k v [] = [(k, v)]"
| "setProperty k v ((k', v') # ps) =
     (if k' = k then (k, v) # ps else (k', v') # setProperty k v ps)"

text \<open>
  \<open>set_style k v\<close> is an assignment \<open>element.style.k = v\<close> of the program's own, to an
  overlay or to the body: the name is a property and the value one that the browser
  accepts for it, so the declaration is stored (an empty value stands for a removed
  declaration). \<open>assign_style\<close> is the assignment \<open>element.style[k] = v\<close> with a name and
  a value from a message: the browser decides what becomes of the declaration, and a
  node that is no element has no \<open>style\<close> to assign to.
\<close>

fun set_style :: "string \<Rightarrow> string \<Rightarrow> node \<Rightarrow> node" where
  "set_style k v (Element r t i c s y ks) = Element r t i c s (setProperty k v y) ks"
| "set_style k v n = n"

fun put_style :: "(string \<times> string) list \<Rightarrow> node \<Rightarrow> node" where
  "put_style y' (Element r t i c s y ks) = Element r t i c s y' ks"
| "put_style y' n = n"

definition assign_style :: "browser \<Rightarrow> ref \<Rightarrow> string \<Rightarrow> string \<Rightarrow> node \<Rightarrow> error + node" where
  "assign_style B r k v doc =
     (case find_node r doc of
        None \<Rightarrow> Inr doc
      | Some e \<Rightarrow>
          if nodeType e \<noteq> ELEMENT_NODE then Inl TypeError
          else (case setStyleProperty B (style e) k v of
                  Inl err \<Rightarrow> Inl err
                | Inr y' \<Rightarrow> Inr (update_node r (put_style y') doc)))"

fun set_src :: "string \<Rightarrow> node \<Rightarrow> node" where
  \<comment> \<open>the \<open>src\<close> property after \<open>img.src = ...\<close>, given the URL it resolves to\<close>
  "set_src v (Element r t i c s y ks) = Element r t i c (Some v) y ks"
| "set_src v n = n"

fun append_child :: "node \<Rightarrow> node \<Rightarrow> node" where
  "append_child new (Element r t i c s y ks) = Element r t i c s y (ks @ [new])"
| "append_child new (Document r ks) = Document r (ks @ [new])"
| "append_child new n = n"

definition appendChild :: "ref \<Rightarrow> node \<Rightarrow> node \<Rightarrow> node" where
  \<comment> \<open>\<open>parent.appendChild(new)\<close> in document \<open>doc\<close>\<close>
  "appendChild parent new doc = update_node parent (append_child new) doc"

section \<open>Engine state\<close>

datatype outMessage =
    EDIT_MODE_READY
  | ELEMENT_HOVERED elementInfo
  | ELEMENT_CLICKED elementInfo
  | ELEMENT_UNHOVERED

datatype consoleEntry =
    ConsoleLog "string list"
  | ConsoleError string error

datatype messageHandler = HandleMessage | HandleAckMessage

datatype pointerHandler = HandleMouseMove | HandleClick | HandleMouseLeave

text \<open>A teardown handle: the no-op \<open>() => {}\<close>, or the closure stored in \<open>cleanupFn\<close>.\<close>

datatype handle = Noop | Cleanup nat

text \<open>
  The module variables, followed by the part of the page that the module reads and
  writes: the flag on \<open>window\<close>, the listeners, the timers, the document, the messages
  posted to the parent and the console. A timer id is never 0, so \<open>if (readyInterval)\<close>
  is the test against \<open>null\<close>.
\<close>

record state =
  isEditModeActive :: bool
  highlightOverlay :: "ref option"
  selectionOverlay :: "ref option"
  selectedElement :: "ref option"
  lastHoveredElement :: "ref option"
  lastFrameTime :: real
  readyInterval :: "nat option"
  readyAcknowledged :: bool
  cleanupFn :: "nat option"
  hasWindow :: bool
  initialized :: bool
  windowListeners :: "messageHandler list"
  documentListeners :: "(string \<times> pointerHandler \<times> bool) list"
  intervals :: "nat list"
  timeouts :: "nat list"
  nextTimer :: nat
  nextHandle :: nat
  document :: node
  body :: ref
  nextRef :: ref
  outbox :: "outMessage list"
  console :: "consoleEntry list"

definition FRAME_DELAY :: real where "FRAME_DELAY = 16"

definition VLIBE_PURPLE :: string where "VLIBE_PURPLE = ''#F4C7F2''"

definition postMessage :: "outMessage \<Rightarrow> state \<Rightarrow> state" where
  "postMessage m s = s\<lparr>outbox := outbox s @ [m]\<rparr>"

definition console_log :: "string list \<Rightarrow> state \<Rightarrow> state" where
  "console_log xs s = s\<lparr>console := console s @ [ConsoleLog xs]\<rparr>"

definition console_error :: "string \<Rightarrow> error \<Rightarrow> state \<Rightarrow> state" where
  "console_error x e s = s\<lparr>console := console s @ [ConsoleError x e]\<rparr>"

definition addEventListener :: "'a \<Rightarrow> 'a list \<Rightarrow> 'a list" where
  "addEventListener l ls = (if l \<in> set ls then ls else ls @ [l])"

definition removeEventListener :: "'a \<Rightarrow> 'a list \<Rightarrow> 'a list" where
  "removeEventListener l ls = removeAll l ls"

definition clearInterval :: "nat \<Rightarrow> state \<Rightarrow> state" where
  "clearInterval t s = s\<lparr>intervals := removeAll t (intervals s)\<rparr>"

definition set_inline_style :: "ref \<Rightarrow> string \<Rightarrow> string \<Rightarrow> state \<Rightarrow> state" where
  "set_inline_style r k v s = s\<lparr>document := update_node r (set_style k v) (document s)\<rparr>"

section \<open>Overlay renderer\<close>

definition highlight_cssText :: "(string \<times> string) list" where
  "highlight_cssText =
     [(''position'', ''fixed''),
      (''pointer-events'', ''none''),
      (''border'', ''2px solid '' @ VLIBE_PURPLE),
      (''background'', ''rgba(244, 199, 242, 0.1)''),
      (''z-index'', ''999999''),
      (''transition'', ''all 0.1s ease-out''),
      (''box-shadow'', ''0 0 0 4px rgba(244, 199, 242, 0.2)''),
      (''border-radius'', ''4px''),
      (''display'', ''none'')]"

definition selection_cssText :: "(string \<times> string) list" where
  "selection_cssText =
     [(''position'', ''fixed''),
      (''pointer-events'', ''none''),
      (''border'', ''2px solid '' @ VLIBE_PURPLE),
      (''background'', ''rgba(244, 199, 242, 0.15)''),
      (''z-index'', ''999998''),
      (''box-shadow'', ''0 0 0 4px rgba(244, 199, 242, 0.3), 0 0 12px rgba(244, 199, 242, 0.2)''),
      (''border-radius'', ''4px''),
      (''display'', ''none'')]"

definition createHighlightOverlay :: "state \<Rightarrow> state" where
  "createHighlightOverlay s =
     (case highlightOverlay s of
        Some h \<Rightarrow> s
      | None \<Rightarrow>
          (let r = nextRef s;
               el = Element r ''DIV'' ''__vlibe_edit_highlight__'' (Some []) None highlight_cssText []
           in s\<lparr>highlightOverlay := Some r,
                nextRef := r + 1,
                document := appendChild (body s) el (document s)\<rparr>))"

definition createSelectionOverlay :: "state \<Rightarrow> state" where
  "createSelectionOverlay s =
     (case selectionOverlay s of
        Some h \<Rightarrow> s
      | None \<Rightarrow>
          (let r = nextRef s;
               el = Element r ''DIV'' ''__vlibe_edit_selection__'' (Some []) None selection_cssText []
           in s\<lparr>selectionOverlay := Some r,
                nextRef := r + 1,
                document := appendChild (body s) el (document s)\<rparr>))"

definition place_overlay :: "browser \<Rightarrow> ref \<Rightarrow> domRect \<Rightarrow> state \<Rightarrow> state" where
  \<comment> \<open>the five assignments to \<open>display\<close>, \<open>top\<close>, \<open>left\<close>, \<open>width\<close>, \<open>height\<close>\<close>
  "place_overlay B ov rect s =
     set_inline_style ov ''height'' (numToString B (rect_height rect) @ ''px'')
       (set_inline_style ov ''width'' (numToString B (rect_width rect) @ ''px'')
         (set_inline_style ov ''left'' (numToString B (rect_left rect) @ ''px'')
           (set_inline_style ov ''top'' (numToString B (rect_top rect) @ ''px'')
             (set_inline_style ov ''display'' ''block'' s))))"

definition updateSelectionOverlay :: "browser \<Rightarrow> ref option \<Rightarrow> state \<Rightarrow> state" where
  "updateSelectionOverlay B element s =
     (let s1 = (if selectionOverlay s = None then createSelectionOverlay s else s)
      in case element of
           None \<Rightarrow>
             (case selectionOverlay s1 of
                Some ov \<Rightarrow> set_inline_style ov ''display'' ''none'' s1
              | None \<Rightarrow> s1)
         | Some el \<Rightarrow>
             (case selectionOverlay s1 of
                Some ov \<Rightarrow> place_overlay B ov (getBoundingClientRect B (document s1) el) s1
              | None \<Rightarrow> s1))"

definition clearSelection :: "browser \<Rightarrow> state \<Rightarrow> state" where
  "clearSelection B s = updateSelectionOverlay B None (s\<lparr>selectedElement := None\<rparr>)"

definition updateHighlight :: "browser \<Rightarrow> ref option \<Rightarrow> state \<Rightarrow> state" where
  "updateHighlight B element s =
     (case (highlightOverlay s, element) of
        (Some ov, Some el) \<Rightarrow> place_overlay B ov (getBoundingClientRect B (document s) el) s
      | (Some ov, None) \<Rightarrow> set_inline_style ov ''display'' ''none'' s
      | (None, _) \<Rightarrow> s)"

section \<open>Interaction controller\<close>

text \<open>
  A pointer event carries its target \<open>target\<close> with the chain \<open>up\<close> of its ancestors,
  and \<open>handleMouseMove\<close> the reading \<open>now\<close> of \<open>performance.now()\<close>, a number of
  milliseconds idealised as a real. \<open>handleClick\<close> also calls \<open>preventDefault\<close> and
  \<open>stopPropagation\<close> on the event, which act on the event alone and not on the state.
\<close>

definition handleMouseMove :: "browser \<Rightarrow> real \<Rightarrow> node \<Rightarrow> element \<Rightarrow> state \<Rightarrow> state" where
  "handleMouseMove B now target up s =
     (if \<not> isEditModeActive s then s
      else if now - lastFrameTime s < FRAME_DELAY then s
      else (let s1 = s\<lparr>lastFrameTime := now\<rparr>
            in if Some (nref target) = highlightOverlay s1 \<or>
                  ident target = ''__vlibe_edit_highlight__'' \<or>
                  Some (nref target) = selectionOverlay s1 \<or>
                  ident target = ''__vlibe_edit_selection__'' \<or>
                  tagName target = ''HTML'' \<or>
                  tagName target = ''BODY''
               then s1
               else if Some (nref target) \<noteq> lastHoveredElement s1
               then (let s2 = s1\<lparr>lastHoveredElement := Some (nref target)\<rparr>;
                         s3 = updateHighlight B (Some (nref target)) s2
                     in case getElementInfo B (document s3) (body s3) (target # up) of
                          Some info \<Rightarrow> postMessage (ELEMENT_HOVERED info) s3
                        | None \<Rightarrow> s3)
               else s1))"

definition handleClick :: "browser \<Rightarrow> node \<Rightarrow> element \<Rightarrow> state \<Rightarrow> state" where
  "handleClick B target up s =
     (if \<not> isEditModeActive s then s
      else if Some (nref target) = highlightOverlay s \<or>
              ident target = ''__vlibe_edit_highlight__'' \<or>
              Some (nref target) = selectionOverlay s \<or>
              ident target = ''__vlibe_edit_selection__''
      then s
      else (let s1 = s\<lparr>selectedElement := Some (nref target)\<rparr>;
                s2 = updateSelectionOverlay B (Some (nref target)) s1
            in case getElementInfo B (document s2) (body s2) (target # up) of
                 Some info \<Rightarrow> postMessage (ELEMENT_CLICKED info) s2
               | None \<Rightarrow> s2))"

definition handleMouseLeave :: "state \<Rightarrow> state" where
  "handleMouseLeave s =
     (if \<not> isEditModeActive s then s
      else (let s1 = s\<lparr>lastHoveredElement := None\<rparr>;
                s2 = (case highlightOverlay s1 of
                        Some ov \<Rightarrow> set_inline_style ov ''display'' ''none'' s1
                      | None \<Rightarrow> s1)
            in postMessage ELEMENT_UNHOVERED s2))"

section \<open>Mutation applier\<close>

text \<open>
  Each function is a \<open>try\<close> block, whose result is \<open>Inl\<close> when \<open>querySelector\<close> or the
  assignment to the style throws, and a \<open>catch\<close> clause that logs the error. The
  reference that \<open>querySelector\<close> returns is the reference of an element of the document.
\<close>

definition applyStyleChange_try :: "browser \<Rightarrow> string \<Rightarrow> string \<Rightarrow> string \<Rightarrow> state \<Rightarrow> error + state" where
  "applyStyleChange_try B sel property val s =
     (case querySelector B (document s) sel of
        Inl err \<Rightarrow> Inl err
      | Inr None \<Rightarrow> Inr s
      | Inr (Some element) \<Rightarrow>
          (case assign_style B element property val (document s) of
             Inl err \<Rightarrow> Inl err
           | Inr doc' \<Rightarrow>
               Inr (console_log [''[VlibeEditMode] Applied style:'', property, ''='', val, ''to'', sel]
                      (s\<lparr>document := doc'\<rparr>))))"

definition applyStyleChange :: "browser \<Rightarrow> string \<Rightarrow> string \<Rightarrow> string \<Rightarrow> state \<Rightarrow> state" where
  "applyStyleChange B sel property val s =
     (case applyStyleChange_try B sel property val s of
        Inr s' \<Rightarrow> s'
      | Inl err \<Rightarrow> console_error ''[VlibeEditMode] Failed to apply style:'' err s)"

fun set_childNodes :: "node list \<Rightarrow> node \<Rightarrow> node" where
  "set_childNodes ks' (Element r t i c s y ks) = Element r t i c s y ks'"
| "set_childNodes ks' (Document r ks) = Document r ks'"
| "set_childNodes ks' n = n"

fun set_first_text :: "string \<Rightarrow> node list \<Rightarrow> node list" where
  \<comment> \<open>\<open>textNode.textContent = newText\<close> on the first child of type \<open>TEXT_NODE\<close>\<close>
  "set_first_text newText [] = []"
| "set_first_text newText (k # ks) =
     (if nodeType k = TEXT_NODE then Text (nref k) newText # ks
      else k # set_first_text newText ks)"

definition set_textContent :: "ref \<Rightarrow> string \<Rightarrow> node \<Rightarrow> node" where
  \<comment> \<open>\<open>element.textContent = newText\<close>: the children are replaced by one new text node,
      by none when the string is empty\<close>
  "set_textContent fresh newText e =
     set_childNodes (if newText = [] then [] else [Text fresh newText]) e"

definition apply_text :: "ref \<Rightarrow> string \<Rightarrow> node \<Rightarrow> node" where
  "apply_text fresh newText e =
     (case find (\<lambda>n. nodeType n = TEXT_NODE) (childNodes e) of
        Some textNode \<Rightarrow> set_childNodes (set_first_text newText (childNodes e)) e
      | None \<Rightarrow> set_textContent fresh newText e)"

definition applyTextChange_try :: "browser \<Rightarrow> string \<Rightarrow> string \<Rightarrow> state \<Rightarrow> error + state" where
  "applyTextChange_try B sel newText s =
     (case querySelector B (document s) sel of
        Inl err \<Rightarrow> Inl err
      | Inr None \<Rightarrow> Inr s
      | Inr (Some element) \<Rightarrow>
          Inr (console_log [''[VlibeEditMode] Applied text change to'', sel]
                 (s\<lparr>document := update_node element (apply_text (nextRef s) newText) (document s),
                    nextRef := nextRef s + 1\<rparr>)))"

definition applyTextChange :: "browser \<Rightarrow> string \<Rightarrow> string \<Rightarrow> state \<Rightarrow> state" where
  "applyTextChange B sel newText s =
     (case applyTextChange_try B sel newText s of
        Inr s' \<Rightarrow> s'
      | Inl err \<Rightarrow> console_error ''[VlibeEditMode] Failed to apply text:'' err s)"

definition apply_image :: "browser \<Rightarrow> ref \<Rightarrow> string \<Rightarrow> node \<Rightarrow> error + node" where
  "apply_image B r newSrc doc =
     (case find_node r doc of
        None \<Rightarrow> Inr doc
      | Some e \<Rightarrow>
          if toLowerCase (tagName e) = ''img''
          then Inr (update_node r (set_src (resolveURL B newSrc)) doc)
          else assign_style B r ''backgroundImage'' (''url('' @ newSrc @ '')'') doc)"

definition applyImageChange_try :: "browser \<Rightarrow> string \<Rightarrow> string \<Rightarrow> state \<Rightarrow> error + state" where
  "applyImageChange_try B sel newSrc s =
     (case querySelector B (document s) sel of
        Inl err \<Rightarrow> Inl err
      | Inr None \<Rightarrow> Inr s
      | Inr (Some element) \<Rightarrow>
          (case apply_image B element newSrc (document s) of
             Inl err \<Rightarrow> Inl err
           | Inr doc' \<Rightarrow>
               Inr (console_log [''[VlibeEditMode] Applied image change to'', sel]
                      (s\<lparr>document := doc'\<rparr>))))"

definition applyImageChange :: "browser \<Rightarrow> string \<Rightarrow> string \<Rightarrow> state \<Rightarrow> state" where
  "applyImageChange B sel newSrc s =
     (case applyImageChange_try B sel newSrc s of
        Inr s' \<Rightarrow> s'
      | Inl err \<Rightarrow> console_error ''[VlibeEditMode] Failed to apply image:'' err s)"

section \<open>Enabling and disabling\<close>

definition enableEditMode :: "state \<Rightarrow> state" where
  "enableEditMode s =
     (let s1 = console_log [''[VlibeEditMode] Enabling edit mode''] s;
          s2 = s1\<lparr>isEditModeActive := True\<rparr>;
          s3 = createHighlightOverlay s2;
          s4 = createSelectionOverlay s3;
          s5 = set_inline_style (body s4) ''cursor'' ''crosshair'' s4
      in s5\<lparr>documentListeners :=
              addEventListener (''mouseleave'', HandleMouseLeave, False)
                (addEventListener (''click'', HandleClick, True)
                  (addEventListener (''mousemove'', HandleMouseMove, False)
                    (documentListeners s5)))\<rparr>)"

definition disableEditMode :: "browser \<Rightarrow> state \<Rightarrow> state" where
  "disableEditMode B s =
     (let s1 = console_log [''[VlibeEditMode] Disabling edit mode''] s;
          s2 = s1\<lparr>isEditModeActive := False, lastHoveredElement := None\<rparr>;
          s3 = clearSelection B s2;
          s4 = (case highlightOverlay s3 of
                  Some ov \<Rightarrow> set_inline_style ov ''display'' ''none'' s3
                | None \<Rightarrow> s3);
          s5 = set_inline_style (body s4) ''cursor'' [] s4
      in s5\<lparr>documentListeners :=
              removeEventListener (''mouseleave'', HandleMouseLeave, False)
                (removeEventListener (''click'', HandleClick, True)
                  (removeEventListener (''mousemove'', HandleMouseMove, False)
                    (documentListeners s5)))\<rparr>)"

section \<open>Channel and handshake\<close>

text \<open>
  The \<open>data\<close> of a message event: \<open>None\<close> when it is \<open>null\<close> or \<open>undefined\<close>; otherwise its
  \<open>type\<close> (\<open>None\<close> when absent) and its \<open>payload\<close>, an object given by its keys and values.
\<close>

record message =
  mtype :: "string option"
  payload :: "(string \<times> string) list option"

definition has_keys :: "string list \<Rightarrow> (string \<times> string) list option \<Rightarrow> bool" where
  \<comment> \<open>\<open>message.payload && 'k1' in message.payload && ...\<close>\<close>
  "has_keys ks p = (case p of None \<Rightarrow> False | Some kv \<Rightarrow> list_all (\<lambda>k. map_of kv k \<noteq> None) ks)"

definition field :: "string \<Rightarrow> (string \<times> string) list option \<Rightarrow> string" where
  "field k p = (case p of None \<Rightarrow> [] | Some kv \<Rightarrow> (case map_of kv k of None \<Rightarrow> [] | Some v \<Rightarrow> v))"

definition acknowledge :: "state \<Rightarrow> state" where
  \<comment> \<open>\<open>readyAcknowledged = true; if (readyInterval) { clearInterval(readyInterval); readyInterval = null; }\<close>\<close>
  "acknowledge s =
     (let s1 = s\<lparr>readyAcknowledged := True\<rparr>
      in case readyInterval s1 of
           Some t \<Rightarrow> (clearInterval t s1)\<lparr>readyInterval := None\<rparr>
         | None \<Rightarrow> s1)"

definition handleMessage :: "browser \<Rightarrow> message option \<Rightarrow> state \<Rightarrow> state" where
  "handleMessage B d s =
     (case d of
        None \<Rightarrow> s
      | Some m \<Rightarrow>
          (case mtype m of
             None \<Rightarrow> s
           | Some ty \<Rightarrow>
               if ty = [] then s
               else if ty = ''EDIT_MODE_ENABLE'' then enableEditMode s
               else if ty = ''EDIT_MODE_DISABLE'' then disableEditMode B s
               else if ty = ''APPLY_STYLE_CHANGE'' then
                 (if has_keys [''selector'', ''property'', ''value''] (payload m)
                  then applyStyleChange B (field ''selector'' (payload m))
                         (field ''property'' (payload m)) (field ''value'' (payload m)) s
                  else s)
               else if ty = ''APPLY_TEXT_CHANGE'' then
                 (if has_keys [''selector'', ''newText''] (payload m)
                  then applyTextChange B (field ''selector'' (payload m))
                         (field ''newText'' (payload m)) s
                  else s)
               else if ty = ''APPLY_IMAGE_CHANGE'' then
                 (if has_keys [''selector'', ''newSrc''] (payload m)
                  then applyImageChange B (field ''selector'' (payload m))
                         (field ''newSrc'' (payload m)) s
                  else s)
               else if ty = ''CLEAR_SELECTION'' then clearSelection B s
               else if ty = ''EDIT_MODE_READY_ACK'' then acknowledge s
               else s))"

definition handleAckMessage :: "message option \<Rightarrow> state \<Rightarrow> state" where
  "handleAckMessage d s =
     (case d of
        None \<Rightarrow> s
      | Some m \<Rightarrow>
          if mtype m = Some ''EDIT_MODE_ENABLE'' \<or> mtype m = Some ''EDIT_MODE_READY_ACK''
          then acknowledge s
          else s)"

definition sendReady :: "state \<Rightarrow> state" where
  "sendReady s =
     (if \<not> readyAcknowledged s
      then postMessage EDIT_MODE_READY
             (console_log [''[VlibeEditMode] Sending EDIT_MODE_READY to parent''] s)
      else s)"

definition cleanup :: "state \<Rightarrow> state" where
  \<comment> \<open>the body of the closure stored in \<open>cleanupFn\<close>\<close>
  "cleanup s =
     (let s1 = s\<lparr>windowListeners :=
                    removeEventListener HandleAckMessage
                      (removeEventListener HandleMessage (windowListeners s))\<rparr>;
          s2 = (case readyInterval s1 of
                  Some t \<Rightarrow> (clearInterval t s1)\<lparr>readyInterval := None\<rparr>
                | None \<Rightarrow> s1);
          s3 = (case highlightOverlay s2 of
                  Some h \<Rightarrow> s2\<lparr>document := remove_node h (document s2), highlightOverlay := None\<rparr>
                | None \<Rightarrow> s2);
          s4 = (case selectionOverlay s3 of
                  Some h \<Rightarrow> s3\<lparr>document := remove_node h (document s3), selectionOverlay := None\<rparr>
                | None \<Rightarrow> s3)
      in s4\<lparr>initialized := False\<rparr>)"

definition initEditMode :: "state \<Rightarrow> handle \<times> state" where
  "initEditMode s =
     (if \<not> hasWindow s then (Noop, s)
      else if initialized s then
        (case cleanupFn s of Some h \<Rightarrow> Cleanup h | None \<Rightarrow> Noop,
         console_log [''[VlibeEditMode] Already initialized, skipping''] s)
      else (let s1 = s\<lparr>initialized := True\<rparr>;
                s2 = s1\<lparr>windowListeners :=
                          addEventListener HandleAckMessage
                            (addEventListener HandleMessage (windowListeners s1))\<rparr>;
                s3 = sendReady s2;
                s4 = console_log [''[VlibeEditMode] Edit mode script initialized''] s3;
                s5 = s4\<lparr>readyInterval := Some (nextTimer s4),
                        intervals := intervals s4 @ [nextTimer s4],
                        nextTimer := nextTimer s4 + 1\<rparr>;
                s6 = s5\<lparr>timeouts := timeouts s5 @ [nextTimer s5],
                        nextTimer := nextTimer s5 + 1\<rparr>;
                s7 = s6\<lparr>cleanupFn := Some (nextHandle s6), nextHandle := nextHandle s6 + 1\<rparr>
            in (Cleanup (nextHandle s6), s7)))"

definition call_handle :: "handle \<Rightarrow> state \<Rightarrow> state" where
  "call_handle h s = (case h of Noop \<Rightarrow> s | Cleanup i \<Rightarrow> cleanup s)"

definition isEditModeEnabled :: "state \<Rightarrow> bool" where
  "isEditModeEnabled s = isEditModeActive s"

section \<open>The event loop\<close>

text \<open>
  One turn of the event loop runs one callback to completion: a message event is given
  to the listeners registered on \<open>window\<close>, in the order of their registration; a
  pointer event to the handler registered on \<open>document\<close>; \<open>IntervalFires t\<close> is the
  callback of the interval \<open>t\<close> (which calls \<open>sendReady\<close>) and \<open>TimeoutFires t\<close> the
  callback of the 30 second timeout; \<open>CallInit\<close> and \<open>CallTeardown\<close> are the calls of the
  page to \<open>initEditMode\<close> and to a teardown handle.
\<close>

datatype event =
    MessageEvent "message option"
  | MouseMove real node element
  | Click node element
  | MouseLeave
  | IntervalFires nat
  | TimeoutFires nat
  | CallInit
  | CallTeardown handle

fun run_listener :: "browser \<Rightarrow> message option \<Rightarrow> messageHandler \<Rightarrow> state \<Rightarrow> state" where
  "run_listener B d HandleMessage s = handleMessage B d s"
| "run_listener B d HandleAckMessage s = handleAckMessage d s"

definition dispatch_message :: "browser \<Rightarrow> message option \<Rightarrow> state \<Rightarrow> state" where
  "dispatch_message B d s = fold (run_listener B d) (windowListeners s) s"

definition timeout_callback :: "state \<Rightarrow> state" where
  "timeout_callback s =
     (case readyInterval s of
        Some t \<Rightarrow> (clearInterval t s)\<lparr>readyInterval := None\<rparr>
      | None \<Rightarrow> s)"

fun step :: "browser \<Rightarrow> event \<Rightarrow> state \<Rightarrow> state" where
  "step B (MessageEvent d) s = dispatch_message B d s"
| "step B (MouseMove now target up) s =
     (if (''mousemove'', HandleMouseMove, False) \<in> set (documentListeners s)
      then handleMouseMove B now target up s else s)"
| "step B (Click target up) s =
     (if (''click'', HandleClick, True) \<in> set (documentListeners s)
      then handleClick B target up s else s)"
| "step B MouseLeave s =
     (if (''mouseleave'', HandleMouseLeave, False) \<in> set (documentListeners s)
      then handleMouseLeave s else s)"
| "step B (IntervalFires t) s = (if t \<in> set (intervals s) then sendReady s else s)"
| "step B (TimeoutFires t) s =
     (if t \<in> set (timeouts s)
      then timeout_callback (s\<lparr>timeouts := removeAll t (timeouts s)\<rparr>) else s)"
| "step B CallInit s = snd (initEditMode s)"
| "step B (CallTeardown h) s = call_handle h s"

definition run :: "browser \<Rightarrow> event list \<Rightarrow> state \<Rightarrow> state" where
  "run B evs s = fold (step B) evs s"

text \<open>The state when the module has been loaded into a page with document \<open>doc\<close>.\<close>

definition module_load :: "node \<Rightarrow> ref \<Rightarrow> ref \<Rightarrow> state" where
  "module_load doc b fresh =
     \<lparr> isEditModeActive = False, highlightOverlay = None, selectionOverlay = None,
       selectedElement = None, lastHoveredElement = None, lastFrameTime = 0,
       readyInterval = None, readyAcknowledged = False, cleanupFn = None,
       hasWindow = True, initialized = False, windowListeners = [], documentListeners = [],
       intervals = [], timeouts = [], nextTimer = 1, nextHandle = 0,
       document = doc, body = b, nextRef = fresh, outbox = [], console = [] \<rparr>"

section \<open>Observations and a sample page\<close>

definition ready_count :: "state \<Rightarrow> nat" where
  \<comment> \<open>how many \<open>EDIT_MODE_READY\<close> messages have been posted\<close>
  "ready_count s = length (filter (\<lambda>m. m = EDIT_MODE_READY) (outbox s))"

fun is_hover :: "outMessage \<Rightarrow> bool" where
  "is_hover (ELEMENT_HOVERED i) = True"
| "is_hover m = False"

definition hover_count :: "state \<Rightarrow> nat" where
  "hover_count s = length (filter is_hover (outbox s))"

definition handshake_vars ::
  "state \<Rightarrow> bool \<times> nat option \<times> nat list \<times> nat list \<times> nat \<times> nat \<times> bool \<times> bool \<times> nat option \<times> messageHandler list" where
  \<comment> \<open>the variables of the handshake and of initialisation\<close>
  "handshake_vars s =
     (readyAcknowledged s, readyInterval s, intervals s, timeouts s, nextTimer s, nextHandle s,
      hasWindow s, initialized s, cleanupFn s, windowListeners s)"

definition display_of :: "ref \<Rightarrow> node \<Rightarrow> string option" where
  \<comment> \<open>the inline \<open>display\<close> of the node \<open>r\<close> of a document\<close>
  "display_of r doc = (case find_node r doc of None \<Rightarrow> None | Some n \<Rightarrow> map_of (style n) ''display'')"

definition sample_span :: node where
  "sample_span = Element 6 ''SPAN'' [] (Some ''a hover:b  c d'') None [] [Text 7 ''world'']"

definition sample_div :: node where
  "sample_div =
     Element 4 ''DIV'' ''main'' (Some ''card big'') None []
       [Text 5 ''  Hello '', sample_span, Element 10 ''SPAN'' [] (Some []) None [] []]"

definition sample_img :: node where
  "sample_img = Element 9 ''IMG'' [] (Some []) (Some ''/a.png'') [] []"

definition sample_p :: node where
  "sample_p = Element 8 ''P'' [] (Some []) None [] [sample_img]"

definition sample_body :: node where
  "sample_body = Element 3 ''BODY'' [] (Some []) None [] [sample_div, sample_p]"

definition sample_html :: node where
  "sample_html =
     Element 1 ''HTML'' [] (Some []) None []
       [Element 2 ''HEAD'' [] (Some []) None [] [], sample_body]"

definition sample_document :: node where
  "sample_document = Document 0 [sample_html]"

text \<open>
  The sample browser accepts two properties with two values each, ignores every other
  declaration and throws on the read-only names \<open>length\<close> and \<open>parentRule\<close>.
\<close>

definition sample_browser :: browser where
  "sample_browser =
     \<lparr> cssEscape = (\<lambda>s. s),
       querySelector = (\<lambda>doc sel.
          if sel = ''#main'' then Inr (Some 4)
          else if sel = ''p'' then Inr (Some 8)
          else if sel = ''['' then Inl SyntaxError
          else Inr None),
       getBoundingClientRect =
         (\<lambda>doc r. \<lparr> rect_top = 1, rect_left = 2, rect_width = 3, rect_height = 4 \<rparr>),
       getComputedStyle = (\<lambda>doc r p. []),
       scrollX = 0,
       scrollY = 0,
       numToString = (\<lambda>x. ''0''),
       setStyleProperty = (\<lambda>y k v.
          if k = ''length'' \<or> k = ''parentRule'' then Inl TypeError
          else if (k = ''color'' \<and> v \<in> set [''red'', ''blue'']) \<or>
                  (k = ''display'' \<and> v \<in> set [''none'', ''block''])
          then Inr (setProperty k v y)
          else Inr y),
       resolveURL = (\<lambda>u. u) \<rparr>"

definition sample_state :: state where
  "sample_state = module_load sample_document 3 100"

definition sample_ack :: message where
  "sample_ack = \<lparr> mtype = Some ''EDIT_MODE_READY_ACK'', payload = None \<rparr>"

definition sample_enable :: message where
  "sample_enable = \<lparr> mtype = Some ''EDIT_MODE_ENABLE'', payload = None \<rparr>"

definition sample_ready :: state where
  "sample_ready = snd (initEditMode sample_state)"

definition sample_active :: state where
  "sample_active = step sample_browser (MessageEvent (Some sample_enable)) sample_ready"

definition sample_selected :: state where
  "sample_selected =
     run sample_browser
       [Click sample_span [sample_div, sample_body, sample_html, sample_document],
        MouseMove 20 sample_img [sample_p, sample_body, sample_html, sample_document]]
       sample_active"

definition sample_torn_down :: state where
  \<comment> \<open>the teardown handle of the first initialisation, called while edit mode is on\<close>
  "sample_torn_down = call_handle (fst (initEditMode sample_state)) sample_selected"

definition sample_click_after_teardown :: state where
  "sample_click_after_teardown =
     step sample_browser
       (Click sample_span [sample_div, sample_body, sample_html, sample_document])
       sample_torn_down"

definition sample_clear :: message where
  "sample_clear = \<lparr> mtype = Some ''CLEAR_SELECTION'', payload = None \<rparr>"

section \<open>Facts about the document operations\<close>

lemma find_node_self: "nref n = r \<Longrightarrow> find_node r n = Some n"
  by (cases n) auto

lemma update_node_self: "nref n = r \<Longrightarrow> update_node r f n = f n"
  by (cases n) auto

lemma update_node_nref: "(\<And>m. nref (f m) = nref m) \<Longrightarrow> nref (update_node r f n) = nref n"
  by (cases n) auto

lemma first_some_map_option:
  "first_some (map (\<lambda>k. map_option f (g k)) ks) = map_option f (first_some (map g ks))"
proof (induction ks)
  case Nil
  show ?case by simp
next
  case (Cons k ks)
  then show ?case by (cases "g k") auto
qed

lemma find_update_node:
  assumes keep: "\<And>m. nref (f m) = nref m"
  shows "find_node r (update_node r f d) = map_option f (find_node r d)"
proof (induction d)
  case (Element r' t i c s y ks)
  show ?case
  proof (cases "r' = r")
    case True
    then show ?thesis by (simp add: find_node_self keep)
  next
    case False
    have "map (find_node r) (map (update_node r f) ks) = map (\<lambda>k. map_option f (find_node r k)) ks"
      using Element by simp
    with False show ?thesis by (simp add: first_some_map_option del: map_map)
  qed
next
  case (Text r' d)
  then show ?case by (simp add: find_node_self keep)
next
  case (Comment r' d)
  then show ?case by (simp add: find_node_self keep)
next
  case (Document r' ks)
  show ?case
  proof (cases "r' = r")
    case True
    then show ?thesis by (simp add: find_node_self keep)
  next
    case False
    have "map (find_node r) (map (update_node r f) ks) = map (\<lambda>k. map_option f (find_node r k)) ks"
      using Document by simp
    with False show ?thesis by (simp add: first_some_map_option del: map_map)
  qed
qed

lemma update_node_idem:
  assumes keep: "\<And>m. nref (f m) = nref m" and idem: "\<And>m. f (f m) = f m"
  shows "update_node r f (update_node r f d) = update_node r f d"
proof (induction d)
  case (Element r' t i c s y ks)
  then show ?case by (simp add: update_node_self keep idem)
next
  case (Document r' ks)
  then show ?case by (simp add: update_node_self keep idem)
qed (simp_all add: update_node_self keep idem)

lemma remove_node_nref: "nref (remove_node r n) = nref n"
  by (cases n) auto

lemma refs_below_remove_node:
  "set (refs_below (remove_node r n)) \<subseteq> set (refs_below n) - {r}"
proof (induction n)
  case (Element r' t i c s y ks)
  show ?case
  proof
    fix x
    assume "x \<in> set (refs_below (remove_node r (Element r' t i c s y ks)))"
    then obtain k where k: "k \<in> set ks" "nref k \<noteq> r"
      and x: "x = nref (remove_node r k) \<or> x \<in> set (refs_below (remove_node r k))"
      by auto
    from x Element[OF k(1)] k show "x \<in> set (refs_below (Element r' t i c s y ks)) - {r}"
      by (auto simp: remove_node_nref)
  qed
next
  case (Document r' ks)
  show ?case
  proof
    fix x
    assume "x \<in> set (refs_below (remove_node r (Document r' ks)))"
    then obtain k where k: "k \<in> set ks" "nref k \<noteq> r"
      and x: "x = nref (remove_node r k) \<or> x \<in> set (refs_below (remove_node r k))"
      by auto
    from x Document[OF k(1)] k show "x \<in> set (refs_below (Document r' ks)) - {r}"
      by (auto simp: remove_node_nref)
  qed
qed simp_all

section \<open>Identity resolver: elements with an id\<close>

text \<open>
  C1. For an element whose \<open>id\<close> is not empty, \<open>getSelector\<close> returns \<open>#\<close> followed by
  the escaped id and \<open>getXPath\<close> returns \<open>//*[@id="<id>"]\<close>; neither result depends on
  the ancestors \<open>up\<close> of the element nor on which node is the body. For \<open>null\<close> both
  return the empty string.
\<close>

theorem id_short_circuit:
  "(ident e \<noteq> [] \<longrightarrow>
      getSelector B b (e # up) = ''#'' @ cssEscape B (ident e) \<and>
      getXPath b (e # up) = ''//*[@id=\"'' @ ident e @ ''\"]'' \<and>
      getSelector B b (e # up) = getSelector B b' (e # up') \<and>
      getXPath b (e # up) = getXPath b' (e # up')) \<and>
   getSelector B b [] = [] \<and> getXPath b [] = []"
  by simp

theorem id_short_circuit_witness:
  "ident sample_div \<noteq> [] \<and>
   getSelector sample_browser 3 [sample_div, sample_body, sample_html, sample_document] = ''#main'' \<and>
   getXPath 3 [sample_div, sample_body, sample_html, sample_document] = ''//*[@id=\"main\"]''"
  using id_short_circuit [of sample_div sample_browser 3
      "[sample_body, sample_html, sample_document]" 3 "[]"]
  by (simp add: sample_div_def sample_browser_def)

section \<open>Inspector: the text of a descriptor\<close>

lemma trim_Nil_iff: "trim s = [] \<longleftrightarrow> (\<forall>c\<in>set s. is_space c)"
proof
  assume "trim s = []"
  then have all: "\<forall>c\<in>set (dropWhile is_space s). is_space c"
    by (simp add: trim_def dropWhile_eq_Nil_conv)
  show "\<forall>c\<in>set s. is_space c"
  proof (cases "dropWhile is_space s")
    case Nil
    then show ?thesis by (simp add: dropWhile_eq_Nil_conv)
  next
    case (Cons x xs)
    then have "\<not> is_space (hd (dropWhile is_space s))"
      using hd_dropWhile [of is_space s] by simp
    moreover have "hd (dropWhile is_space s) \<in> set (dropWhile is_space s)"
      using Cons by simp
    ultimately show ?thesis using all by blast
  qed
next
  assume "\<forall>c\<in>set s. is_space c"
  then show "trim s = []"
    by (auto simp: trim_def dropWhile_eq_Nil_conv dest: set_dropWhileD)
qed

lemma nonblank_text_node_iff:
  "nonblank_text_node n \<longleftrightarrow> nodeType n = TEXT_NODE \<and> (\<exists>c\<in>set (data n). \<not> is_space c)"
  by (cases n) (auto simp: nonblank_text_node_def TEXT_NODE_def trim_Nil_iff)

lemma text_node_descendant_text: "nodeType n = TEXT_NODE \<Longrightarrow> descendant_text n = data n"
  by (cases n) (auto simp: TEXT_NODE_def)

lemma nonblank_child_text:
  assumes "n \<in> set ks" and "nonblank_text_node n"
  shows "trim (concat (map descendant_text ks)) \<noteq> []"
proof -
  from assms(2) obtain c where c: "c \<in> set (data n)" "\<not> is_space c" and ty: "nodeType n = TEXT_NODE"
    by (auto simp: nonblank_text_node_iff)
  from ty c(1) assms(1) have "c \<in> set (concat (map descendant_text ks))"
    by (auto simp: text_node_descendant_text intro!: bexI [of _ n])
  with c(2) show ?thesis by (auto simp: trim_Nil_iff)
qed

lemma text_element_is_element:
  "toLowerCase (tagName e) \<in> set textTags \<Longrightarrow> \<exists>r t i c s y ks. e = Element r t i c s y ks"
  by (cases e) (auto simp: textTags_def toLowerCase_def)

lemma is_text_element_textContent:
  assumes "is_text_element e"
  shows "\<exists>full. textContent e = Some full \<and> slice0 200 (trim full) \<noteq> []"
proof -
  from assms obtain r t i c s y ks where e: "e = Element r t i c s y ks"
    using text_element_is_element [of e] unfolding is_text_element_def by blast
  from assms obtain n where "n \<in> set ks" "nonblank_text_node n"
    by (auto simp: is_text_element_def e list_ex_iff)
  then have "trim (concat (map descendant_text ks)) \<noteq> []"
    by (rule nonblank_child_text)
  then show ?thesis by (simp add: e slice0_def)
qed

text \<open>
  C6. The descriptor of \<open>null\<close> is \<open>null\<close>. For a node \<open>e\<close> the descriptor exists, its
  \<open>isTextElement\<close> holds exactly when the lower-cased tag is in the allow-list and some
  direct child is a text node with a character that is not white space, its
  \<open>textContent\<close> is not \<open>null\<close> exactly when \<open>isTextElement\<close> holds, and a \<open>textContent\<close>
  that is not \<open>null\<close> is the text content of \<open>e\<close>, trimmed and cut to its first 200
  characters.
\<close>

theorem describe_textContent:
  "getElementInfo B doc b [] = None \<and>
   (\<exists>info. getElementInfo B doc b (e # up) = Some info \<and>
      isTextElement info =
        (toLowerCase (tagName e) \<in>
           {''p'', ''h1'', ''h2'', ''h3'', ''h4'', ''h5'', ''h6'', ''span'', ''a'', ''button'',
            ''label'', ''li'', ''td'', ''th'', ''div''} \<and>
         (\<exists>n\<in>set (childNodes e). nodeType n = TEXT_NODE \<and> (\<exists>c\<in>set (data n). \<not> is_space c))) \<and>
      (textContent_info info \<noteq> None \<longleftrightarrow> isTextElement info) \<and>
      (\<forall>t. textContent_info info = Some t \<longrightarrow>
         (\<exists>full. textContent e = Some full \<and> t = take 200 (trim full) \<and> length t \<le> 200)))"
proof -
  define info where "info = the (getElementInfo B doc b (e # up))"
  have some: "getElementInfo B doc b (e # up) = Some info"
    by (simp add: info_def Let_def)
  have flag: "isTextElement info = is_text_element e"
    by (simp add: info_def Let_def)
  have allow: "is_text_element e =
        (toLowerCase (tagName e) \<in>
           {''p'', ''h1'', ''h2'', ''h3'', ''h4'', ''h5'', ''h6'', ''span'', ''a'', ''button'',
            ''label'', ''li'', ''td'', ''th'', ''div''} \<and>
         (\<exists>n\<in>set (childNodes e). nodeType n = TEXT_NODE \<and> (\<exists>c\<in>set (data n). \<not> is_space c)))"
    by (auto simp: is_text_element_def textTags_def list_ex_iff nonblank_text_node_iff)
  have field: "textContent_info info =
      (if is_text_element e
       then (case textContent e of None \<Rightarrow> None
             | Some t \<Rightarrow> if slice0 200 (trim t) = [] then None else Some (slice0 200 (trim t)))
       else None)"
    by (simp add: info_def Let_def split: option.split)
  have iff: "textContent_info info \<noteq> None \<longleftrightarrow> isTextElement info"
    using is_text_element_textContent [of e] by (auto simp: field flag)
  have val: "\<forall>t. textContent_info info = Some t \<longrightarrow>
         (\<exists>full. textContent e = Some full \<and> t = take 200 (trim full) \<and> length t \<le> 200)"
    by (auto simp: field slice0_def split: if_splits option.splits)
  have null: "getElementInfo B doc b [] = None"
    by simp
  have allow': "isTextElement info =
        (toLowerCase (tagName e) \<in>
           {''p'', ''h1'', ''h2'', ''h3'', ''h4'', ''h5'', ''h6'', ''span'', ''a'', ''button'',
            ''label'', ''li'', ''td'', ''th'', ''div''} \<and>
         (\<exists>n\<in>set (childNodes e). nodeType n = TEXT_NODE \<and> (\<exists>c\<in>set (data n). \<not> is_space c)))"
    unfolding flag by (rule allow)
  have "getElementInfo B doc b (e # up) = Some info \<and>
      isTextElement info =
        (toLowerCase (tagName e) \<in>
           {''p'', ''h1'', ''h2'', ''h3'', ''h4'', ''h5'', ''h6'', ''span'', ''a'', ''button'',
            ''label'', ''li'', ''td'', ''th'', ''div''} \<and>
         (\<exists>n\<in>set (childNodes e). nodeType n = TEXT_NODE \<and> (\<exists>c\<in>set (data n). \<not> is_space c))) \<and>
      (textContent_info info \<noteq> None \<longleftrightarrow> isTextElement info) \<and>
      (\<forall>t. textContent_info info = Some t \<longrightarrow>
         (\<exists>full. textContent e = Some full \<and> t = take 200 (trim full) \<and> length t \<le> 200))"
    using some allow' iff val by (intro conjI)
  then have "\<exists>info. getElementInfo B doc b (e # up) = Some info \<and>
      isTextElement info =
        (toLowerCase (tagName e) \<in>
           {''p'', ''h1'', ''h2'', ''h3'', ''h4'', ''h5'', ''h6'', ''span'', ''a'', ''button'',
            ''label'', ''li'', ''td'', ''th'', ''div''} \<and>
         (\<exists>n\<in>set (childNodes e). nodeType n = TEXT_NODE \<and> (\<exists>c\<in>set (data n). \<not> is_space c))) \<and>
      (textContent_info info \<noteq> None \<longleftrightarrow> isTextElement info) \<and>
      (\<forall>t. textContent_info info = Some t \<longrightarrow>
         (\<exists>full. textContent e = Some full \<and> t = take 200 (trim full) \<and> length t \<le> 200))" ..
  with null show ?thesis
    by (rule conjI)
qed

theorem describe_textContent_witness:
  "\<exists>info. getElementInfo sample_browser sample_document 3
              [sample_div, sample_body, sample_html, sample_document] = Some info \<and>
      isTextElement info \<and> textContent_info info = Some ''Hello world''"
proof -
  from describe_textContent [of sample_browser sample_document 3 sample_div
          "[sample_body, sample_html, sample_document]"]
  obtain info where some: "getElementInfo sample_browser sample_document 3
              [sample_div, sample_body, sample_html, sample_document] = Some info"
    and allow: "isTextElement info =
        (toLowerCase (tagName sample_div) \<in>
           {''p'', ''h1'', ''h2'', ''h3'', ''h4'', ''h5'', ''h6'', ''span'', ''a'', ''button'',
            ''label'', ''li'', ''td'', ''th'', ''div''} \<and>
         (\<exists>n\<in>set (childNodes sample_div). nodeType n = TEXT_NODE \<and> (\<exists>c\<in>set (data n). \<not> is_space c)))"
    and iff: "textContent_info info \<noteq> None \<longleftrightarrow> isTextElement info"
    and val: "\<forall>t. textContent_info info = Some t \<longrightarrow>
         (\<exists>full. textContent sample_div = Some full \<and> t = take 200 (trim full) \<and> length t \<le> 200)"
    by blast
  have "toLowerCase (tagName sample_div) \<in>
           {''p'', ''h1'', ''h2'', ''h3'', ''h4'', ''h5'', ''h6'', ''span'', ''a'', ''button'',
            ''label'', ''li'', ''td'', ''th'', ''div''} \<and>
         (\<exists>n\<in>set (childNodes sample_div). nodeType n = TEXT_NODE \<and> (\<exists>c\<in>set (data n). \<not> is_space c))"
    by code_simp
  with allow have istext: "isTextElement info"
    by simp
  with iff obtain t where t: "textContent_info info = Some t"
    by auto
  have full: "textContent sample_div = Some ''  Hello world''"
    by code_simp
  have "take 200 (trim ''  Hello world'') = ''Hello world''"
    by code_simp
  with val t full have "textContent_info info = Some ''Hello world''"
    by auto
  with some istext show ?thesis
    by blast
qed

section \<open>Mutation applier: style and text\<close>

lemma set_style_nref: "nref (set_style k v n) = nref n"
  by (cases n) auto

lemma map_of_setProperty: "map_of (setProperty k v ps) k = Some v"
  by (induction ps) auto

lemma style_set_style: "nodeType e = ELEMENT_NODE \<Longrightarrow> map_of (style (set_style k v e)) k = Some v"
  by (cases e) (auto simp: map_of_setProperty ELEMENT_NODE_def)

lemma put_style_nref: "nref (put_style y n) = nref n"
  by (cases n) auto

lemma style_put_style: "nodeType e = ELEMENT_NODE \<Longrightarrow> style (put_style y e) = y"
  by (cases e) (auto simp: ELEMENT_NODE_def)

lemma assign_style_element:
  "find_node r doc = Some e \<Longrightarrow> nodeType e = ELEMENT_NODE \<Longrightarrow>
   assign_style B r k v doc =
     (case setStyleProperty B (style e) k v of
        Inl err \<Rightarrow> Inl err
      | Inr y \<Rightarrow> Inr (update_node r (put_style y) doc))"
  by (simp add: assign_style_def)

text \<open>
  C5, as the code has it. \<open>applyStyleChange\<close> returns a state for every selector. The
  exception that \<open>querySelector\<close> raises on a malformed selector is caught and only
  written to the console, with the document and every other part of the state
  unchanged, and a selector that matches nothing leaves the whole state unchanged. When
  an element matches, the assignment \<open>element.style[property] = value\<close> is made: the
  inline style of the element becomes the declaration that the browser gives for this
  name and value, and one line is logged; an exception of the assignment is caught and
  only written to the console.
\<close>

theorem applyStyleChange_never_fails:
  "(\<forall>err. querySelector B (document s) sel = Inl err \<longrightarrow>
      applyStyleChange B sel property val s =
        s\<lparr>console := console s @ [ConsoleError ''[VlibeEditMode] Failed to apply style:'' err]\<rparr> \<and>
      document (applyStyleChange B sel property val s) = document s) \<and>
   (querySelector B (document s) sel = Inr None \<longrightarrow>
      applyStyleChange B sel property val s = s) \<and>
   (\<forall>r e. querySelector B (document s) sel = Inr (Some r) \<and>
          find_node r (document s) = Some e \<and> nodeType e = ELEMENT_NODE \<longrightarrow>
      (\<forall>y. setStyleProperty B (style e) property val = Inr y \<longrightarrow>
         find_node r (document (applyStyleChange B sel property val s)) = Some (put_style y e) \<and>
         style (put_style y e) = y \<and>
         console (applyStyleChange B sel property val s) =
           console s @ [ConsoleLog [''[VlibeEditMode] Applied style:'', property, ''='', val, ''to'', sel]]) \<and>
      (\<forall>err. setStyleProperty B (style e) property val = Inl err \<longrightarrow>
         applyStyleChange B sel property val s =
           s\<lparr>console := console s @ [ConsoleError ''[VlibeEditMode] Failed to apply style:'' err]\<rparr>))"
proof -
  have invalid: "\<forall>err. querySelector B (document s) sel = Inl err \<longrightarrow>
      applyStyleChange B sel property val s =
        s\<lparr>console := console s @ [ConsoleError ''[VlibeEditMode] Failed to apply style:'' err]\<rparr> \<and>
      document (applyStyleChange B sel property val s) = document s"
    by (simp add: applyStyleChange_def applyStyleChange_try_def console_error_def)
  have nomatch: "querySelector B (document s) sel = Inr None \<longrightarrow>
      applyStyleChange B sel property val s = s"
    by (simp add: applyStyleChange_def applyStyleChange_try_def)
  have match: "\<forall>r e. querySelector B (document s) sel = Inr (Some r) \<and>
          find_node r (document s) = Some e \<and> nodeType e = ELEMENT_NODE \<longrightarrow>
      (\<forall>y. setStyleProperty B (style e) property val = Inr y \<longrightarrow>
         find_node r (document (applyStyleChange B sel property val s)) = Some (put_style y e) \<and>
         style (put_style y e) = y \<and>
         console (applyStyleChange B sel property val s) =
           console s @ [ConsoleLog [''[VlibeEditMode] Applied style:'', property, ''='', val, ''to'', sel]]) \<and>
      (\<forall>err. setStyleProperty B (style e) property val = Inl err \<longrightarrow>
         applyStyleChange B sel property val s =
           s\<lparr>console := console s @ [ConsoleError ''[VlibeEditMode] Failed to apply style:'' err]\<rparr>)"
    by (simp add: applyStyleChange_def applyStyleChange_try_def assign_style_element
        console_error_def console_log_def find_update_node put_style_nref style_put_style)
  from invalid nomatch match show ?thesis
    by (intro conjI)
qed

lemma sample_find_main: "find_node 4 (document sample_state) = Some sample_div"
  by code_simp

theorem applyStyleChange_never_fails_witness:
  "querySelector sample_browser (document sample_state) ''['' = Inl SyntaxError \<and>
   console (applyStyleChange sample_browser ''['' ''color'' ''red'' sample_state) =
     [ConsoleError ''[VlibeEditMode] Failed to apply style:'' SyntaxError] \<and>
   document (applyStyleChange sample_browser ''['' ''color'' ''red'' sample_state) = document sample_state \<and>
   querySelector sample_browser (document sample_state) ''.none'' = Inr None \<and>
   applyStyleChange sample_browser ''.none'' ''color'' ''red'' sample_state = sample_state \<and>
   querySelector sample_browser (document sample_state) ''#main'' = Inr (Some 4) \<and>
   setStyleProperty sample_browser (style sample_div) ''color'' ''red'' = Inr [(''color'', ''red'')] \<and>
   find_node 4 (document (applyStyleChange sample_browser ''#main'' ''color'' ''red'' sample_state)) =
     Some (put_style [(''color'', ''red'')] sample_div) \<and>
   setStyleProperty sample_browser (style sample_div) ''length'' ''5'' = Inl TypeError \<and>
   applyStyleChange sample_browser ''#main'' ''length'' ''5'' sample_state =
     sample_state\<lparr>console := console sample_state @
       [ConsoleError ''[VlibeEditMode] Failed to apply style:'' TypeError]\<rparr>"
proof -
  have q1: "querySelector sample_browser (document sample_state) ''['' = Inl SyntaxError"
    by code_simp
  have q2: "querySelector sample_browser (document sample_state) ''.none'' = Inr None"
    by code_simp
  have q3: "querySelector sample_browser (document sample_state) ''#main'' = Inr (Some 4)"
    by code_simp
  have el: "nodeType sample_div = ELEMENT_NODE"
    by code_simp
  have c0: "console sample_state = []"
    by code_simp
  have ok: "setStyleProperty sample_browser (style sample_div) ''color'' ''red'' = Inr [(''color'', ''red'')]"
    by code_simp
  have ro: "setStyleProperty sample_browser (style sample_div) ''length'' ''5'' = Inl TypeError"
    by code_simp
  from applyStyleChange_never_fails [of sample_browser sample_state "''[''" "''color''" "''red''"] q1
  have a: "applyStyleChange sample_browser ''['' ''color'' ''red'' sample_state =
        sample_state\<lparr>console := console sample_state @
           [ConsoleError ''[VlibeEditMode] Failed to apply style:'' SyntaxError]\<rparr>"
    and b: "document (applyStyleChange sample_browser ''['' ''color'' ''red'' sample_state) = document sample_state"
    by blast+
  from applyStyleChange_never_fails [of sample_browser sample_state "''.none''" "''color''" "''red''"] q2
  have c: "applyStyleChange sample_browser ''.none'' ''color'' ''red'' sample_state = sample_state"
    by blast
  from applyStyleChange_never_fails [of sample_browser sample_state "''#main''" "''color''" "''red''"]
    q3 sample_find_main el ok
  have d: "find_node 4 (document (applyStyleChange sample_browser ''#main'' ''color'' ''red'' sample_state)) =
     Some (put_style [(''color'', ''red'')] sample_div)"
    by blast
  from applyStyleChange_never_fails [of sample_browser sample_state "''#main''" "''length''" "''5''"]
    q3 sample_find_main el ro
  have e: "applyStyleChange sample_browser ''#main'' ''length'' ''5'' sample_state =
     sample_state\<lparr>console := console sample_state @
       [ConsoleError ''[VlibeEditMode] Failed to apply style:'' TypeError]\<rparr>"
    by blast
  from a c0 have a': "console (applyStyleChange sample_browser ''['' ''color'' ''red'' sample_state) =
     [ConsoleError ''[VlibeEditMode] Failed to apply style:'' SyntaxError]"
    by simp
  from q1 a' b q2 c q3 ok d ro e show ?thesis
    by (intro conjI)
qed

text \<open>
  The statement that a matched element always ends with the named property set to the
  given value fails: the selector \<open>#main\<close> matches, and the browser ignores the value
  \<open>notacolor\<close> for \<open>color\<close>, so the element is as before and has no \<open>color\<close>; the
  read-only name \<open>length\<close> makes the assignment throw, which is logged as a failure.
\<close>

theorem applyStyleChange_counterexample:
  "querySelector sample_browser (document sample_state) ''#main'' = Inr (Some 4) \<and>
   find_node 4 (document sample_state) = Some sample_div \<and>
   find_node 4 (document (applyStyleChange sample_browser ''#main'' ''color'' ''notacolor'' sample_state)) =
     Some sample_div \<and>
   map_of (style sample_div) ''color'' = None \<and>
   find_node 4 (document (applyStyleChange sample_browser ''#main'' ''length'' ''5'' sample_state)) =
     Some sample_div \<and>
   map_of (style sample_div) ''length'' = None \<and>
   console (applyStyleChange sample_browser ''#main'' ''length'' ''5'' sample_state) =
     [ConsoleError ''[VlibeEditMode] Failed to apply style:'' TypeError]"
  by code_simp

lemma set_childNodes_nref: "nref (set_childNodes ks n) = nref n"
  by (cases n) auto

lemma apply_text_nref: "nref (apply_text fresh newText n) = nref n"
  by (simp add: apply_text_def set_textContent_def set_childNodes_nref split: option.split)

lemma set_first_text_split:
  "\<exists>k\<in>set ks. nodeType k = TEXT_NODE \<Longrightarrow>
   \<exists>pre t post. ks = pre @ t # post \<and> (\<forall>k\<in>set pre. nodeType k \<noteq> TEXT_NODE) \<and>
      nodeType t = TEXT_NODE \<and> set_first_text newText ks = pre @ Text (nref t) newText # post"
proof (induction ks)
  case Nil
  then show ?case by simp
next
  case (Cons k ks)
  show ?case
  proof (cases "nodeType k = TEXT_NODE")
    case True
    then have "k # ks = [] @ k # ks \<and> (\<forall>k\<in>set []. nodeType k \<noteq> TEXT_NODE) \<and>
        nodeType k = TEXT_NODE \<and> set_first_text newText (k # ks) = [] @ Text (nref k) newText # ks"
      by simp
    then show ?thesis by blast
  next
    case False
    with Cons.prems have "\<exists>k\<in>set ks. nodeType k = TEXT_NODE" by auto
    from Cons.IH [OF this] obtain pre t post where
      ks: "ks = pre @ t # post" and pre: "\<forall>k\<in>set pre. nodeType k \<noteq> TEXT_NODE"
      and t: "nodeType t = TEXT_NODE"
      and upd: "set_first_text newText ks = pre @ Text (nref t) newText # post"
      by blast
    from False ks pre t upd
    have "k # ks = (k # pre) @ t # post \<and> (\<forall>k\<in>set (k # pre). nodeType k \<noteq> TEXT_NODE) \<and>
        nodeType t = TEXT_NODE \<and> set_first_text newText (k # ks) = (k # pre) @ Text (nref t) newText # post"
      by simp
    then show ?thesis by blast
  qed
qed

lemma find_SomeD: "find P xs = Some x \<Longrightarrow> x \<in> set xs \<and> P x"
  by (auto simp: find_Some_iff)

lemma apply_text_element:
  "apply_text fresh newText (Element r t i c s y ks) =
     Element r t i c s y
       (if \<exists>k\<in>set ks. nodeType k = TEXT_NODE then set_first_text newText ks
        else if newText = [] then [] else [Text fresh newText])"
  by (auto simp: apply_text_def set_textContent_def find_None_iff split: option.split dest: find_SomeD)

text \<open>
  C4. When the selector of \<open>applyTextChange\<close> resolves to an element \<open>e\<close> of the document,
  the element \<open>e'\<close> found under the same reference afterwards keeps the tag, id, class,
  \<open>src\<close> and style of \<open>e\<close>. If \<open>e\<close> has a direct child text node, the children of \<open>e'\<close>
  are those of \<open>e\<close> with the first text node \<open>t\<close> holding the new text and every other
  child, before and after it, unchanged. If \<open>e\<close> has no direct child text node, the text
  content of \<open>e'\<close> is the new text.
\<close>

theorem applyTextChange_first_text_node:
  assumes "querySelector B (document s) sel = Inr (Some r)"
    and "find_node r (document s) = Some e"
    and "nodeType e = ELEMENT_NODE"
  shows "\<exists>e'. find_node r (document (applyTextChange B sel newText s)) = Some e' \<and>
      nref e' = nref e \<and> tagName e' = tagName e \<and> ident e' = ident e \<and>
      className e' = className e \<and> src e' = src e \<and> style e' = style e \<and>
      ((\<exists>k\<in>set (childNodes e). nodeType k = TEXT_NODE) \<longrightarrow>
         (\<exists>pre t post. childNodes e = pre @ t # post \<and>
            (\<forall>k\<in>set pre. nodeType k \<noteq> TEXT_NODE) \<and> nodeType t = TEXT_NODE \<and>
            childNodes e' = pre @ Text (nref t) newText # post)) \<and>
      ((\<forall>k\<in>set (childNodes e). nodeType k \<noteq> TEXT_NODE) \<longrightarrow>
         textContent e' = Some newText \<and>
         childNodes e' = (if newText = [] then [] else [Text (nextRef s) newText]))"
proof -
  from assms(3) obtain r' t i c st y ks where e: "e = Element r' t i c st y ks"
    by (cases e) (auto simp: ELEMENT_NODE_def)
  define e' where "e' = apply_text (nextRef s) newText e"
  have found: "find_node r (document (applyTextChange B sel newText s)) = Some e'"
    using assms(1,2)
    by (simp add: applyTextChange_def applyTextChange_try_def console_log_def
        find_update_node apply_text_nref e'_def)
  have same: "nref e' = nref e \<and> tagName e' = tagName e \<and> ident e' = ident e \<and>
      className e' = className e \<and> src e' = src e \<and> style e' = style e"
    by (simp add: e'_def e apply_text_element)
  have first: "(\<exists>k\<in>set (childNodes e). nodeType k = TEXT_NODE) \<longrightarrow>
         (\<exists>pre t post. childNodes e = pre @ t # post \<and>
            (\<forall>k\<in>set pre. nodeType k \<noteq> TEXT_NODE) \<and> nodeType t = TEXT_NODE \<and>
            childNodes e' = pre @ Text (nref t) newText # post)"
  proof
    assume ex: "\<exists>k\<in>set (childNodes e). nodeType k = TEXT_NODE"
    then have "childNodes e' = set_first_text newText (childNodes e)"
      by (simp add: e'_def e apply_text_element)
    with set_first_text_split [OF ex, of newText]
    show "\<exists>pre t post. childNodes e = pre @ t # post \<and>
            (\<forall>k\<in>set pre. nodeType k \<noteq> TEXT_NODE) \<and> nodeType t = TEXT_NODE \<and>
            childNodes e' = pre @ Text (nref t) newText # post"
      by simp
  qed
  have none: "(\<forall>k\<in>set (childNodes e). nodeType k \<noteq> TEXT_NODE) \<longrightarrow>
         textContent e' = Some newText \<and>
         childNodes e' = (if newText = [] then [] else [Text (nextRef s) newText])"
    by (simp add: e'_def e apply_text_element)
  from found same first none show ?thesis
    by (intro exI [where x = e']) (intro conjI; blast)
qed

lemma sample_find_p: "find_node 8 (document sample_state) = Some sample_p"
  by code_simp

theorem applyTextChange_first_text_node_witness:
  "querySelector sample_browser (document sample_state) ''#main'' = Inr (Some 4) \<and>
   find_node 4 (document sample_state) = Some sample_div \<and>
   nodeType sample_div = ELEMENT_NODE \<and>
   (\<exists>e'. find_node 4 (document (applyTextChange sample_browser ''#main'' ''Bye'' sample_state)) = Some e' \<and>
      childNodes e' = [Text 5 ''Bye'', sample_span, Element 10 ''SPAN'' [] (Some []) None [] []]) \<and>
   (\<exists>e'. find_node 8 (document (applyTextChange sample_browser ''p'' ''Bye'' sample_state)) = Some e' \<and>
      textContent e' = Some ''Bye'')"
proof -
  have q: "querySelector sample_browser (document sample_state) ''#main'' = Inr (Some 4)"
    by code_simp
  have f: "find_node 4 (document sample_state) = Some sample_div"
    by code_simp
  have n: "nodeType sample_div = ELEMENT_NODE"
    by code_simp
  from applyTextChange_first_text_node [OF q f n, of "''Bye''"]
  obtain e' where found: "find_node 4 (document (applyTextChange sample_browser ''#main'' ''Bye'' sample_state)) = Some e'"
    and first: "(\<exists>k\<in>set (childNodes sample_div). nodeType k = TEXT_NODE) \<longrightarrow>
         (\<exists>pre t post. childNodes sample_div = pre @ t # post \<and>
            (\<forall>k\<in>set pre. nodeType k \<noteq> TEXT_NODE) \<and> nodeType t = TEXT_NODE \<and>
            childNodes e' = pre @ Text (nref t) ''Bye'' # post)"
    by blast
  have "find_node 4 (document (applyTextChange sample_browser ''#main'' ''Bye'' sample_state)) =
      Some (Element 4 ''DIV'' ''main'' (Some ''card big'') None []
        [Text 5 ''Bye'', sample_span, Element 10 ''SPAN'' [] (Some []) None [] []])"
    by code_simp
  with found have "e' = Element 4 ''DIV'' ''main'' (Some ''card big'') None []
        [Text 5 ''Bye'', sample_span, Element 10 ''SPAN'' [] (Some []) None [] []]"
    by simp
  then have kids: "childNodes e' = [Text 5 ''Bye'', sample_span, Element 10 ''SPAN'' [] (Some []) None [] []]"
    by simp
  have q2: "querySelector sample_browser (document sample_state) ''p'' = Inr (Some 8)"
    by code_simp
  have f2: "find_node 8 (document sample_state) = Some sample_p"
    by code_simp
  have n2: "nodeType sample_p = ELEMENT_NODE"
    by code_simp
  have no_text: "\<forall>k\<in>set (childNodes sample_p). nodeType k \<noteq> TEXT_NODE"
    by code_simp
  from applyTextChange_first_text_node [OF q2 f2 n2, of "''Bye''"] no_text
  obtain e2 where "find_node 8 (document (applyTextChange sample_browser ''p'' ''Bye'' sample_state)) = Some e2"
    and "textContent e2 = Some ''Bye''"
    by blast
  with q f n found kids show ?thesis
    by blast
qed

section \<open>What the handlers leave alone\<close>

lemma handshake_vars_fields:
  assumes "handshake_vars s' = handshake_vars s"
  shows "readyAcknowledged s' = readyAcknowledged s" and "readyInterval s' = readyInterval s"
    and "intervals s' = intervals s" and "timeouts s' = timeouts s"
    and "nextTimer s' = nextTimer s" and "nextHandle s' = nextHandle s"
    and "hasWindow s' = hasWindow s" and "initialized s' = initialized s"
    and "cleanupFn s' = cleanupFn s" and "windowListeners s' = windowListeners s"
  using assms by (simp_all add: handshake_vars_def)

lemma handshake_vars_update [simp]:
  "handshake_vars (s\<lparr>isEditModeActive := a\<rparr>) = handshake_vars s"
  "handshake_vars (s\<lparr>highlightOverlay := b\<rparr>) = handshake_vars s"
  "handshake_vars (s\<lparr>selectionOverlay := c\<rparr>) = handshake_vars s"
  "handshake_vars (s\<lparr>selectedElement := d\<rparr>) = handshake_vars s"
  "handshake_vars (s\<lparr>lastHoveredElement := e\<rparr>) = handshake_vars s"
  "handshake_vars (s\<lparr>lastFrameTime := f\<rparr>) = handshake_vars s"
  "handshake_vars (s\<lparr>documentListeners := g\<rparr>) = handshake_vars s"
  "handshake_vars (s\<lparr>document := h\<rparr>) = handshake_vars s"
  "handshake_vars (s\<lparr>nextRef := i\<rparr>) = handshake_vars s"
  "handshake_vars (s\<lparr>outbox := j\<rparr>) = handshake_vars s"
  "handshake_vars (s\<lparr>console := k\<rparr>) = handshake_vars s"
  by (simp_all add: handshake_vars_def)

lemma set_inline_style_keeps [simp]:
  "handshake_vars (set_inline_style r k v s) = handshake_vars s"
  "outbox (set_inline_style r k v s) = outbox s"
  "isEditModeActive (set_inline_style r k v s) = isEditModeActive s"
  "lastFrameTime (set_inline_style r k v s) = lastFrameTime s"
  by (simp_all add: set_inline_style_def)

lemma postMessage_keeps [simp]:
  "handshake_vars (postMessage m s) = handshake_vars s"
  "outbox (postMessage m s) = outbox s @ [m]"
  "isEditModeActive (postMessage m s) = isEditModeActive s"
  "lastFrameTime (postMessage m s) = lastFrameTime s"
  by (simp_all add: postMessage_def)

lemma console_log_keeps [simp]:
  "handshake_vars (console_log xs s) = handshake_vars s"
  "outbox (console_log xs s) = outbox s"
  by (simp_all add: console_log_def)

lemma console_error_keeps [simp]:
  "handshake_vars (console_error x e s) = handshake_vars s"
  "outbox (console_error x e s) = outbox s"
  by (simp_all add: console_error_def)

lemma createHighlightOverlay_keeps [simp]:
  "handshake_vars (createHighlightOverlay s) = handshake_vars s"
  "outbox (createHighlightOverlay s) = outbox s"
  by (simp_all add: createHighlightOverlay_def Let_def split: option.split)

lemma createSelectionOverlay_keeps [simp]:
  "handshake_vars (createSelectionOverlay s) = handshake_vars s"
  "outbox (createSelectionOverlay s) = outbox s"
  "isEditModeActive (createSelectionOverlay s) = isEditModeActive s"
  "lastFrameTime (createSelectionOverlay s) = lastFrameTime s"
  by (simp_all add: createSelectionOverlay_def Let_def split: option.split)

lemma place_overlay_keeps [simp]:
  "handshake_vars (place_overlay B ov rect s) = handshake_vars s"
  "outbox (place_overlay B ov rect s) = outbox s"
  "isEditModeActive (place_overlay B ov rect s) = isEditModeActive s"
  "lastFrameTime (place_overlay B ov rect s) = lastFrameTime s"
  by (simp_all add: place_overlay_def)

lemma updateSelectionOverlay_keeps [simp]:
  "handshake_vars (updateSelectionOverlay B el s) = handshake_vars s"
  "outbox (updateSelectionOverlay B el s) = outbox s"
  "isEditModeActive (updateSelectionOverlay B el s) = isEditModeActive s"
  by (simp_all add: updateSelectionOverlay_def Let_def split: option.split)

lemma clearSelection_keeps [simp]:
  "handshake_vars (clearSelection B s) = handshake_vars s"
  "outbox (clearSelection B s) = outbox s"
  by (simp_all add: clearSelection_def)

lemma updateHighlight_keeps [simp]:
  "handshake_vars (updateHighlight B el s) = handshake_vars s"
  "outbox (updateHighlight B el s) = outbox s"
  "isEditModeActive (updateHighlight B el s) = isEditModeActive s"
  "lastFrameTime (updateHighlight B el s) = lastFrameTime s"
  by (simp_all add: updateHighlight_def split: option.split)

lemma handleMouseMove_handshake [simp]:
  "handshake_vars (handleMouseMove B now target up s) = handshake_vars s"
  by (simp add: handleMouseMove_def Let_def split: option.split)

lemma handleClick_handshake [simp]:
  "handshake_vars (handleClick B target up s) = handshake_vars s"
  by (simp add: handleClick_def Let_def split: option.split)

lemma handleMouseLeave_handshake [simp]:
  "handshake_vars (handleMouseLeave s) = handshake_vars s"
  by (simp add: handleMouseLeave_def Let_def split: option.split)

lemma applyStyleChange_keeps [simp]:
  "handshake_vars (applyStyleChange B sel p v s) = handshake_vars s"
  "outbox (applyStyleChange B sel p v s) = outbox s"
  by (simp_all add: applyStyleChange_def applyStyleChange_try_def split: sum.split option.split)

lemma applyTextChange_keeps [simp]:
  "handshake_vars (applyTextChange B sel t s) = handshake_vars s"
  "outbox (applyTextChange B sel t s) = outbox s"
  by (simp_all add: applyTextChange_def applyTextChange_try_def split: sum.split option.split)

lemma applyImageChange_keeps [simp]:
  "handshake_vars (applyImageChange B sel t s) = handshake_vars s"
  "outbox (applyImageChange B sel t s) = outbox s"
  by (simp_all add: applyImageChange_def applyImageChange_try_def split: sum.split option.split)

lemma enableEditMode_keeps [simp]:
  "handshake_vars (enableEditMode s) = handshake_vars s"
  "outbox (enableEditMode s) = outbox s"
  by (simp_all add: enableEditMode_def Let_def)

lemma disableEditMode_keeps [simp]:
  "handshake_vars (disableEditMode B s) = handshake_vars s"
  "outbox (disableEditMode B s) = outbox s"
  by (simp_all add: disableEditMode_def Let_def split: option.split)

section \<open>The handshake\<close>

lemma acknowledge_vars:
  "readyAcknowledged (acknowledge s)"
  "readyInterval (acknowledge s) = None"
  "readyInterval s = Some t \<Longrightarrow> t \<notin> set (intervals (acknowledge s))"
  "outbox (acknowledge s) = outbox s"
  by (simp_all add: acknowledge_def clearInterval_def Let_def split: option.split)

lemma acknowledge_cong:
  "handshake_vars s' = handshake_vars s \<Longrightarrow>
   handshake_vars (acknowledge s') = handshake_vars (acknowledge s)"
  by (simp add: handshake_vars_def acknowledge_def clearInterval_def Let_def split: option.split)

lemma acknowledge_idem: "acknowledge (acknowledge s) = acknowledge s"
  by (simp add: acknowledge_def clearInterval_def Let_def split: option.split)

lemma handleMessage_outbox [simp]: "outbox (handleMessage B d s) = outbox s"
  by (simp add: handleMessage_def acknowledge_vars split: option.split)

lemma handleAckMessage_outbox [simp]: "outbox (handleAckMessage d s) = outbox s"
  by (simp add: handleAckMessage_def acknowledge_vars split: option.split)

lemma handleMessage_vars:
  "handshake_vars (handleMessage B d s) = handshake_vars s \<or>
   handshake_vars (handleMessage B d s) = handshake_vars (acknowledge s)"
  by (simp add: handleMessage_def split: option.split)

lemma handleAckMessage_vars:
  "handshake_vars (handleAckMessage d s) = handshake_vars s \<or>
   handshake_vars (handleAckMessage d s) = handshake_vars (acknowledge s)"
  by (simp add: handleAckMessage_def split: option.split)

lemma run_listener_vars:
  "handshake_vars (run_listener B d l s) = handshake_vars s \<or>
   handshake_vars (run_listener B d l s) = handshake_vars (acknowledge s)"
  by (cases l) (simp_all add: handleMessage_vars handleAckMessage_vars)

lemma run_listener_outbox [simp]: "outbox (run_listener B d l s) = outbox s"
  by (cases l) simp_all

lemma dispatch_message_outbox [simp]: "outbox (dispatch_message B d s) = outbox s"
proof -
  have "outbox (fold (run_listener B d) ls s) = outbox s" for ls
    by (induction ls arbitrary: s) simp_all
  then show ?thesis by (simp add: dispatch_message_def)
qed

lemma fold_listeners_vars:
  "handshake_vars (fold (run_listener B d) ls s) = handshake_vars s \<or>
   handshake_vars (fold (run_listener B d) ls s) = handshake_vars (acknowledge s)"
proof (induction ls arbitrary: s)
  case Nil
  show ?case by simp
next
  case (Cons l ls)
  let ?s1 = "run_listener B d l s"
  from run_listener_vars [of B d l s] show ?case
  proof
    assume same: "handshake_vars ?s1 = handshake_vars s"
    with Cons.IH [of ?s1] acknowledge_cong [OF same] show ?thesis by auto
  next
    assume ack: "handshake_vars ?s1 = handshake_vars (acknowledge s)"
    from acknowledge_cong [OF ack] have "handshake_vars (acknowledge ?s1) = handshake_vars (acknowledge s)"
      by (simp add: acknowledge_idem)
    with Cons.IH [of ?s1] ack show ?thesis by auto
  qed
qed

text \<open>A message that some registered listener answers by \<open>acknowledge\<close> is acknowledged.\<close>

lemma fold_listeners_acknowledge:
  assumes "l \<in> set ls"
    and "\<And>s. run_listener B d l s = acknowledge s"
  shows "handshake_vars (fold (run_listener B d) ls s) = handshake_vars (acknowledge s)"
  using assms(1)
proof (induction ls arbitrary: s)
  case Nil
  then show ?case by simp
next
  case (Cons k ks)
  let ?s1 = "run_listener B d k s"
  show ?case
  proof (cases "k = l")
    case True
    then have s1: "?s1 = acknowledge s" by (simp add: assms(2))
    from fold_listeners_vars [of B d ks ?s1]
    show ?thesis by (auto simp: s1 acknowledge_idem)
  next
    case False
    with Cons.prems have "l \<in> set ks" by simp
    from Cons.IH [OF this, of ?s1] have tail: "handshake_vars (fold (run_listener B d) ks ?s1) = handshake_vars (acknowledge ?s1)" .
    from run_listener_vars [of B d k s] show ?thesis
    proof
      assume same: "handshake_vars ?s1 = handshake_vars s"
      from acknowledge_cong [OF same] tail show ?thesis by simp
    next
      assume ack: "handshake_vars ?s1 = handshake_vars (acknowledge s)"
      from acknowledge_cong [OF ack] tail show ?thesis by (simp add: acknowledge_idem)
    qed
  qed
qed

lemma acknowledged_state:
  assumes "handshake_vars s' = handshake_vars (acknowledge s)"
  shows "readyAcknowledged s'" and "readyInterval s' = None"
    and "readyInterval s = Some t \<Longrightarrow> t \<notin> set (intervals s')"
  using handshake_vars_fields [OF assms] acknowledge_vars [of s] by simp_all

lemma handleMouseMove_outbox:
  "outbox (handleMouseMove B now target up s) = outbox s \<or>
   (\<exists>info. outbox (handleMouseMove B now target up s) = outbox s @ [ELEMENT_HOVERED info])"
  by (simp add: handleMouseMove_def Let_def)

lemma handleClick_outbox:
  "outbox (handleClick B target up s) = outbox s \<or>
   (\<exists>info. outbox (handleClick B target up s) = outbox s @ [ELEMENT_CLICKED info])"
  by (simp add: handleClick_def Let_def)

lemma handleMouseLeave_outbox:
  "outbox (handleMouseLeave s) = outbox s \<or>
   outbox (handleMouseLeave s) = outbox s @ [ELEMENT_UNHOVERED]"
  by (simp add: handleMouseLeave_def Let_def split: option.split)

lemma ready_count_pointer [simp]:
  "ready_count (handleMouseMove B now target up s) = ready_count s"
  "ready_count (handleClick B target up s) = ready_count s"
  "ready_count (handleMouseLeave s) = ready_count s"
  using handleMouseMove_outbox [of B now target up s] handleClick_outbox [of B target up s]
    handleMouseLeave_outbox [of s]
  by (auto simp: ready_count_def)

lemma sendReady_acknowledged: "readyAcknowledged s \<Longrightarrow> sendReady s = s"
  by (simp add: sendReady_def)

lemma timeout_callback_keeps [simp]:
  "readyAcknowledged (timeout_callback s) = readyAcknowledged s"
  "outbox (timeout_callback s) = outbox s"
  "hasWindow (timeout_callback s) = hasWindow s"
  "initialized (timeout_callback s) = initialized s"
  "cleanupFn (timeout_callback s) = cleanupFn s"
  by (simp_all add: timeout_callback_def clearInterval_def split: option.split)

lemma cleanup_keeps [simp]:
  "readyAcknowledged (cleanup s) = readyAcknowledged s"
  "outbox (cleanup s) = outbox s"
  "hasWindow (cleanup s) = hasWindow s"
  "cleanupFn (cleanup s) = cleanupFn s"
  "initialized (cleanup s) = False"
  by (simp_all add: cleanup_def clearInterval_def Let_def split: option.split)

lemma initEditMode_acknowledged:
  "readyAcknowledged s \<Longrightarrow>
   readyAcknowledged (snd (initEditMode s)) \<and> outbox (snd (initEditMode s)) = outbox s"
  by (simp add: initEditMode_def Let_def sendReady_acknowledged console_log_def)

lemma step_acknowledged:
  assumes "readyAcknowledged s"
  shows "readyAcknowledged (step B e s) \<and> ready_count (step B e s) = ready_count s"
proof (cases e)
  case (MessageEvent d)
  from fold_listeners_vars [of B d "windowListeners s" s]
  have "readyAcknowledged (dispatch_message B d s)"
    unfolding dispatch_message_def
    using assms acknowledge_vars(1) [of s] by (auto dest: handshake_vars_fields(1))
  with MessageEvent show ?thesis by (simp add: ready_count_def)
next
  case (MouseMove now target up)
  with assms handshake_vars_fields(1) [OF handleMouseMove_handshake] show ?thesis by simp
next
  case (Click target up)
  with assms handshake_vars_fields(1) [OF handleClick_handshake] show ?thesis by simp
next
  case MouseLeave
  with assms handshake_vars_fields(1) [OF handleMouseLeave_handshake] show ?thesis by simp
next
  case (IntervalFires t)
  with assms show ?thesis by (simp add: sendReady_acknowledged)
next
  case (TimeoutFires t)
  with assms show ?thesis by (simp add: ready_count_def)
next
  case CallInit
  with assms initEditMode_acknowledged [of s] show ?thesis by (simp add: ready_count_def)
next
  case (CallTeardown h)
  with assms show ?thesis by (cases h) (simp_all add: call_handle_def ready_count_def)
qed

lemma run_acknowledged:
  "readyAcknowledged s \<Longrightarrow>
   readyAcknowledged (run B evs s) \<and> ready_count (run B evs s) = ready_count s"
proof (induction evs arbitrary: s)
  case Nil
  then show ?case by (simp add: run_def)
next
  case (Cons e evs)
  from step_acknowledged [OF Cons.prems, of B e]
  have 1: "readyAcknowledged (step B e s)" and 2: "ready_count (step B e s) = ready_count s"
    by simp_all
  from Cons.IH [OF 1] 2 show ?case by (simp add: run_def)
qed

text \<open>
  C2. \<open>handleMessage\<close> answers \<open>EDIT_MODE_READY_ACK\<close> by setting \<open>readyAcknowledged\<close> and
  cancelling the retry interval. When the message event reaches the listeners of the
  module, the state after it is acknowledged, has no retry interval and no new ready
  message; and from then on no sequence of events of any kind (messages, pointer
  events, timers, calls of \<open>initEditMode\<close> and of the teardown handle) posts another
  \<open>EDIT_MODE_READY\<close>, and \<open>sendReady\<close> does nothing.
\<close>

theorem ready_stops_after_ack:
  assumes "mtype m = Some ''EDIT_MODE_READY_ACK''"
  shows "readyAcknowledged (handleMessage B (Some m) s) \<and>
     readyInterval (handleMessage B (Some m) s) = None \<and>
     (\<forall>t. readyInterval s = Some t \<longrightarrow> t \<notin> set (intervals (handleMessage B (Some m) s))) \<and>
     (windowListeners s \<noteq> [] \<longrightarrow>
        (let s' = step B (MessageEvent (Some m)) s
         in readyAcknowledged s' \<and> readyInterval s' = None \<and>
            (\<forall>t. readyInterval s = Some t \<longrightarrow> t \<notin> set (intervals s')) \<and>
            ready_count s' = ready_count s \<and> sendReady s' = s' \<and>
            (\<forall>evs. readyAcknowledged (run B evs s') \<and>
                   ready_count (run B evs s') = ready_count s' \<and>
                   sendReady (run B evs s') = run B evs s')))"
proof -
  have hm: "handleMessage B (Some m) s = acknowledge s" for s
    using assms by (simp add: handleMessage_def)
  have ham: "handleAckMessage (Some m) s = acknowledge s" for s
    using assms by (simp add: handleAckMessage_def)
  have listener: "run_listener B (Some m) l s = acknowledge s" for l s
    by (cases l) (simp_all add: hm ham)
  have direct: "readyAcknowledged (handleMessage B (Some m) s) \<and>
     readyInterval (handleMessage B (Some m) s) = None \<and>
     (\<forall>t. readyInterval s = Some t \<longrightarrow> t \<notin> set (intervals (handleMessage B (Some m) s)))"
    by (simp add: hm acknowledge_vars)
  have event: "windowListeners s \<noteq> [] \<longrightarrow>
        (let s' = step B (MessageEvent (Some m)) s
         in readyAcknowledged s' \<and> readyInterval s' = None \<and>
            (\<forall>t. readyInterval s = Some t \<longrightarrow> t \<notin> set (intervals s')) \<and>
            ready_count s' = ready_count s \<and> sendReady s' = s' \<and>
            (\<forall>evs. readyAcknowledged (run B evs s') \<and>
                   ready_count (run B evs s') = ready_count s' \<and>
                   sendReady (run B evs s') = run B evs s'))"
  proof
    assume "windowListeners s \<noteq> []"
    then obtain l where l: "l \<in> set (windowListeners s)"
      by (cases "windowListeners s") auto
    define s' where "s' = step B (MessageEvent (Some m)) s"
    have vars: "handshake_vars s' = handshake_vars (acknowledge s)"
      unfolding s'_def step.simps dispatch_message_def
      by (rule fold_listeners_acknowledge [OF l listener])
    note ack = acknowledged_state [OF vars]
    have count: "ready_count s' = ready_count s"
      by (simp add: s'_def ready_count_def)
    have later: "readyAcknowledged (run B evs s') \<and> ready_count (run B evs s') = ready_count s' \<and>
        sendReady (run B evs s') = run B evs s'" for evs
      using run_acknowledged [OF ack(1), of B evs] by (simp add: sendReady_acknowledged)
    from ack count later
    have "readyAcknowledged s' \<and> readyInterval s' = None \<and>
            (\<forall>t. readyInterval s = Some t \<longrightarrow> t \<notin> set (intervals s')) \<and>
            ready_count s' = ready_count s \<and> sendReady s' = s' \<and>
            (\<forall>evs. readyAcknowledged (run B evs s') \<and>
                   ready_count (run B evs s') = ready_count s' \<and>
                   sendReady (run B evs s') = run B evs s')"
      by (simp add: sendReady_acknowledged)
    then show "let s' = step B (MessageEvent (Some m)) s
         in readyAcknowledged s' \<and> readyInterval s' = None \<and>
            (\<forall>t. readyInterval s = Some t \<longrightarrow> t \<notin> set (intervals s')) \<and>
            ready_count s' = ready_count s \<and> sendReady s' = s' \<and>
            (\<forall>evs. readyAcknowledged (run B evs s') \<and>
                   ready_count (run B evs s') = ready_count s' \<and>
                   sendReady (run B evs s') = run B evs s')"
      by (simp add: s'_def Let_def)
  qed
  from direct have d1: "readyAcknowledged (handleMessage B (Some m) s)"
    and d2: "readyInterval (handleMessage B (Some m) s) = None"
    and d3: "\<forall>t. readyInterval s = Some t \<longrightarrow> t \<notin> set (intervals (handleMessage B (Some m) s))"
    by simp_all
  show ?thesis
    by (rule conjI [OF d1 conjI [OF d2 conjI [OF d3 event]]])
qed

theorem ready_stops_after_ack_witness:
  "mtype sample_ack = Some ''EDIT_MODE_READY_ACK'' \<and>
   windowListeners sample_ready \<noteq> [] \<and>
   readyInterval sample_ready = Some 1 \<and>
   ready_count sample_ready = 1 \<and>
   ready_count (step sample_browser (IntervalFires 1) sample_ready) = 2 \<and>
   (let s' = step sample_browser (MessageEvent (Some sample_ack)) sample_ready
    in readyAcknowledged s' \<and> readyInterval s' = None \<and> 1 \<notin> set (intervals s') \<and>
       ready_count
         (run sample_browser
            [IntervalFires 1, MessageEvent (Some sample_enable), CallTeardown (Cleanup 0),
             CallInit, IntervalFires 3, MessageEvent None] s') = 1)"
proof -
  have a: "mtype sample_ack = Some ''EDIT_MODE_READY_ACK''"
    by code_simp
  have b: "windowListeners sample_ready \<noteq> []"
    by code_simp
  have c: "readyInterval sample_ready = Some 1"
    by code_simp
  have d: "ready_count sample_ready = 1"
    by code_simp
  have e: "ready_count (step sample_browser (IntervalFires 1) sample_ready) = 2"
    by code_simp
  from ready_stops_after_ack [OF a, of sample_browser sample_ready] b c d
  have "let s' = step sample_browser (MessageEvent (Some sample_ack)) sample_ready
    in readyAcknowledged s' \<and> readyInterval s' = None \<and> 1 \<notin> set (intervals s') \<and>
       ready_count
         (run sample_browser
            [IntervalFires 1, MessageEvent (Some sample_enable), CallTeardown (Cleanup 0),
             CallInit, IntervalFires 3, MessageEvent None] s') = 1"
    by (simp add: Let_def)
  with a b c d e show ?thesis
    by (intro conjI)
qed

text \<open>
  C10. \<open>handleAckMessage\<close> answers \<open>EDIT_MODE_ENABLE\<close> as it answers the acknowledgment: it
  sets \<open>readyAcknowledged\<close> and cancels the retry interval. When the message event
  reaches that listener, the state after it is acknowledged and has no retry interval,
  and no later sequence of events posts another \<open>EDIT_MODE_READY\<close>.
\<close>

theorem enable_acknowledges:
  assumes "mtype m = Some ''EDIT_MODE_ENABLE''"
  shows "readyAcknowledged (handleAckMessage (Some m) s) \<and>
     readyInterval (handleAckMessage (Some m) s) = None \<and>
     (\<forall>t. readyInterval s = Some t \<longrightarrow> t \<notin> set (intervals (handleAckMessage (Some m) s))) \<and>
     (HandleAckMessage \<in> set (windowListeners s) \<longrightarrow>
        (let s' = step B (MessageEvent (Some m)) s
         in readyAcknowledged s' \<and> readyInterval s' = None \<and>
            (\<forall>t. readyInterval s = Some t \<longrightarrow> t \<notin> set (intervals s')) \<and>
            (\<forall>evs. readyAcknowledged (run B evs s') \<and>
                   ready_count (run B evs s') = ready_count s)))"
proof -
  have ham: "handleAckMessage (Some m) s = acknowledge s" for s
    using assms by (simp add: handleAckMessage_def)
  have d1: "readyAcknowledged (handleAckMessage (Some m) s)"
    and d2: "readyInterval (handleAckMessage (Some m) s) = None"
    and d3: "\<forall>t. readyInterval s = Some t \<longrightarrow> t \<notin> set (intervals (handleAckMessage (Some m) s))"
    by (simp_all add: ham acknowledge_vars)
  have event: "HandleAckMessage \<in> set (windowListeners s) \<longrightarrow>
        (let s' = step B (MessageEvent (Some m)) s
         in readyAcknowledged s' \<and> readyInterval s' = None \<and>
            (\<forall>t. readyInterval s = Some t \<longrightarrow> t \<notin> set (intervals s')) \<and>
            (\<forall>evs. readyAcknowledged (run B evs s') \<and>
                   ready_count (run B evs s') = ready_count s))"
  proof
    assume l: "HandleAckMessage \<in> set (windowListeners s)"
    define s' where "s' = step B (MessageEvent (Some m)) s"
    have "run_listener B (Some m) HandleAckMessage s = acknowledge s" for s
      by (simp add: ham)
    from fold_listeners_acknowledge [OF l this]
    have vars: "handshake_vars s' = handshake_vars (acknowledge s)"
      by (simp add: s'_def dispatch_message_def)
    note ack = acknowledged_state [OF vars]
    have count: "ready_count s' = ready_count s"
      by (simp add: s'_def ready_count_def)
    have "readyAcknowledged (run B evs s') \<and> ready_count (run B evs s') = ready_count s" for evs
      using run_acknowledged [OF ack(1), of B evs] count by simp
    with ack show "let s' = step B (MessageEvent (Some m)) s
         in readyAcknowledged s' \<and> readyInterval s' = None \<and>
            (\<forall>t. readyInterval s = Some t \<longrightarrow> t \<notin> set (intervals s')) \<and>
            (\<forall>evs. readyAcknowledged (run B evs s') \<and>
                   ready_count (run B evs s') = ready_count s)"
      by (simp add: s'_def Let_def)
  qed
  show ?thesis
    by (rule conjI [OF d1 conjI [OF d2 conjI [OF d3 event]]])
qed

theorem enable_acknowledges_witness:
  "mtype sample_enable = Some ''EDIT_MODE_ENABLE'' \<and>
   HandleAckMessage \<in> set (windowListeners sample_ready) \<and>
   \<not> readyAcknowledged sample_ready \<and>
   readyInterval sample_ready = Some 1 \<and>
   (let s' = step sample_browser (MessageEvent (Some sample_enable)) sample_ready
    in readyAcknowledged s' \<and> readyInterval s' = None \<and> 1 \<notin> set (intervals s') \<and>
       ready_count (run sample_browser [IntervalFires 1, CallInit] s') = ready_count sample_ready)"
proof -
  have a: "mtype sample_enable = Some ''EDIT_MODE_ENABLE''"
    by code_simp
  have b: "HandleAckMessage \<in> set (windowListeners sample_ready)"
    by code_simp
  have c: "\<not> readyAcknowledged sample_ready"
    by code_simp
  have d: "readyInterval sample_ready = Some 1"
    by code_simp
  from enable_acknowledges [OF a, of sample_ready sample_browser] b d
  have "let s' = step sample_browser (MessageEvent (Some sample_enable)) sample_ready
    in readyAcknowledged s' \<and> readyInterval s' = None \<and> 1 \<notin> set (intervals s') \<and>
       ready_count (run sample_browser [IntervalFires 1, CallInit] s') = ready_count sample_ready"
    by (simp add: Let_def)
  with a b c d show ?thesis
    by (intro conjI)
qed

section \<open>Throttled pointer moves\<close>

lemma hover_count_move:
  "hover_count (handleMouseMove B now target up s) \<le> hover_count s + 1"
  using handleMouseMove_outbox [of B now target up s] by (auto simp: hover_count_def)

lemma handleMouseMove_dropped:
  "isEditModeActive s \<Longrightarrow> now - lastFrameTime s < 16 \<Longrightarrow> handleMouseMove B now target up s = s"
  by (simp add: handleMouseMove_def FRAME_DELAY_def)

lemma handleMouseMove_processed:
  "isEditModeActive s \<Longrightarrow> \<not> now - lastFrameTime s < 16 \<Longrightarrow>
   isEditModeActive (handleMouseMove B now target up s) \<and>
   lastFrameTime (handleMouseMove B now target up s) = now"
  by (simp add: handleMouseMove_def FRAME_DELAY_def Let_def)

lemma handleMouseMove_inactive: "\<not> isEditModeActive s \<Longrightarrow> handleMouseMove B now target up s = s"
  by (simp add: handleMouseMove_def)

lemma documentListeners_keeps [simp]:
  "documentListeners (set_inline_style r k v s) = documentListeners s"
  "documentListeners (postMessage m s) = documentListeners s"
  "documentListeners (place_overlay B ov rect s) = documentListeners s"
  "documentListeners (updateHighlight B el s) = documentListeners s"
  by (simp_all add: set_inline_style_def postMessage_def place_overlay_def updateHighlight_def
      split: option.split)

lemma handleMouseMove_listeners [simp]:
  "documentListeners (handleMouseMove B now target up s) = documentListeners s"
  by (simp add: handleMouseMove_def Let_def del: getElementInfo.simps split: option.split)

text \<open>
  C8. While edit mode is active, a pointer move that arrives less than 16 ms after the
  last processed one (whose time is \<open>lastFrameTime\<close>) returns the state as it is: no
  variable changes and nothing is posted. A processed move records its time, so a move
  less than 16 ms after it is dropped. Hence, of two moves handled one after the other
  less than 10 ms apart, the second is dropped whenever the first changed the state, and
  together they post at most one \<open>ELEMENT_HOVERED\<close>.
\<close>

theorem pointer_move_throttle:
  "(isEditModeActive s \<and> now - lastFrameTime s < 16 \<longrightarrow>
      handleMouseMove B now target up s = s \<and> step B (MouseMove now target up) s = s) \<and>
   (isEditModeActive s \<and> \<not> t1 - lastFrameTime s < 16 \<and> t2 - t1 < 16 \<longrightarrow>
      lastFrameTime (handleMouseMove B t1 x1 u1 s) = t1 \<and>
      handleMouseMove B t2 x2 u2 (handleMouseMove B t1 x1 u1 s) = handleMouseMove B t1 x1 u1 s) \<and>
   (t2 - t1 < 10 \<longrightarrow>
      (let s1 = step B (MouseMove t1 x1 u1) s; s2 = step B (MouseMove t2 x2 u2) s1
       in hover_count s2 \<le> hover_count s + 1 \<and> (s1 \<noteq> s \<longrightarrow> s2 = s1)))"
proof -
  have drop: "isEditModeActive s \<and> now - lastFrameTime s < 16 \<longrightarrow>
      handleMouseMove B now target up s = s \<and> step B (MouseMove now target up) s = s"
    by (simp add: handleMouseMove_dropped)
  have again: "isEditModeActive s \<and> \<not> t1 - lastFrameTime s < 16 \<and> t2 - t1 < 16 \<longrightarrow>
      lastFrameTime (handleMouseMove B t1 x1 u1 s) = t1 \<and>
      handleMouseMove B t2 x2 u2 (handleMouseMove B t1 x1 u1 s) = handleMouseMove B t1 x1 u1 s"
    using handleMouseMove_processed [of s t1 B x1 u1]
    by (auto intro: handleMouseMove_dropped)
  have two: "t2 - t1 < 10 \<longrightarrow>
      (let s1 = step B (MouseMove t1 x1 u1) s; s2 = step B (MouseMove t2 x2 u2) s1
       in hover_count s2 \<le> hover_count s + 1 \<and> (s1 \<noteq> s \<longrightarrow> s2 = s1))"
  proof
    assume near: "t2 - t1 < 10"
    define s1 where "s1 = step B (MouseMove t1 x1 u1) s"
    define s2 where "s2 = step B (MouseMove t2 x2 u2) s1"
    have "hover_count s2 \<le> hover_count s + 1 \<and> (s1 \<noteq> s \<longrightarrow> s2 = s1)"
    proof (cases "(''mousemove'', HandleMouseMove, False) \<in> set (documentListeners s) \<and>
        isEditModeActive s \<and> \<not> t1 - lastFrameTime s < 16")
      case True
      then have s1: "s1 = handleMouseMove B t1 x1 u1 s"
        by (simp add: s1_def)
      from True handleMouseMove_processed [of s t1 B x1 u1]
      have act: "isEditModeActive s1" and time: "lastFrameTime s1 = t1"
        by (simp_all add: s1)
      from True have reg: "(''mousemove'', HandleMouseMove, False) \<in> set (documentListeners s1)"
        by (simp add: s1)
      from near time have "t2 - lastFrameTime s1 < 16" by simp
      from handleMouseMove_dropped [OF act this] reg have "s2 = s1"
        by (simp add: s2_def)
      with hover_count_move [of B t1 x1 u1 s] s1 show ?thesis by simp
    next
      case False
      then have "s1 = s"
        by (cases "isEditModeActive s")
           (auto simp: s1_def handleMouseMove_inactive handleMouseMove_dropped)
      with hover_count_move [of B t2 x2 u2 s] show ?thesis
        by (simp add: s2_def)
    qed
    then show "let s1 = step B (MouseMove t1 x1 u1) s; s2 = step B (MouseMove t2 x2 u2) s1
       in hover_count s2 \<le> hover_count s + 1 \<and> (s1 \<noteq> s \<longrightarrow> s2 = s1)"
      by (simp add: s1_def s2_def Let_def)
  qed
  show ?thesis
    by (rule conjI [OF drop conjI [OF again two]])
qed

lemma sample_active_facts:
  "isEditModeActive sample_active"
  "lastFrameTime sample_active = 0"
  "hover_count sample_active = 0"
  by code_simp+

theorem pointer_move_throttle_witness:
  "isEditModeActive sample_active \<and>
   \<not> (20 :: real) - lastFrameTime sample_active < 16 \<and> (25 :: real) - 20 < 10 \<and>
   (let s1 = step sample_browser
               (MouseMove 20 sample_span [sample_div, sample_body, sample_html, sample_document])
               sample_active;
        s2 = step sample_browser
               (MouseMove 25 sample_img [sample_p, sample_body, sample_html, sample_document]) s1
    in hover_count s1 = 1 \<and> lastFrameTime s1 = 20 \<and> s2 = s1 \<and> hover_count s2 \<le> 1)"
proof -
  define s1 where "s1 = step sample_browser
               (MouseMove 20 sample_span [sample_div, sample_body, sample_html, sample_document])
               sample_active"
  define s2 where "s2 = step sample_browser
               (MouseMove 25 sample_img [sample_p, sample_body, sample_html, sample_document]) s1"
  have a: "isEditModeActive sample_active"
    by (rule sample_active_facts)
  have b: "\<not> (20 :: real) - lastFrameTime sample_active < 16"
    by (simp add: sample_active_facts)
  have c: "(25 :: real) - 20 < 10"
    by simp
  have h1: "hover_count s1 = 1"
    unfolding s1_def by code_simp
  have l1: "lastFrameTime s1 = 20"
    unfolding s1_def by code_simp
  have changed: "s1 \<noteq> sample_active"
    using l1 sample_active_facts(2) by auto
  have "(25 :: real) - 20 < 10 \<longrightarrow>
      (let s1 = step sample_browser
               (MouseMove 20 sample_span [sample_div, sample_body, sample_html, sample_document])
               sample_active;
           s2 = step sample_browser
               (MouseMove 25 sample_img [sample_p, sample_body, sample_html, sample_document]) s1
       in hover_count s2 \<le> hover_count sample_active + 1 \<and> (s1 \<noteq> sample_active \<longrightarrow> s2 = s1))"
    by (rule pointer_move_throttle [of sample_active 0 sample_browser sample_span "[]" 20 25
      sample_span "[sample_div, sample_body, sample_html, sample_document]"
      sample_img "[sample_p, sample_body, sample_html, sample_document]",
      THEN conjunct2, THEN conjunct2])
  with c have "hover_count s2 \<le> hover_count sample_active + 1 \<and> (s1 \<noteq> sample_active \<longrightarrow> s2 = s1)"
    unfolding Let_def s1_def s2_def by (rule rev_mp)
  with changed sample_active_facts(3) have same: "s2 = s1" and bound: "hover_count s2 \<le> 1"
    by auto
  from a b c h1 l1 same bound show ?thesis
    unfolding Let_def s1_def s2_def by (intro conjI)
qed

section \<open>Initialisation and teardown\<close>

lemma acknowledge_init_vars [simp]:
  "hasWindow (acknowledge s) = hasWindow s"
  "initialized (acknowledge s) = initialized s"
  "cleanupFn (acknowledge s) = cleanupFn s"
  by (simp_all add: acknowledge_def clearInterval_def Let_def split: option.split)

lemma sendReady_handshake [simp]: "handshake_vars (sendReady s) = handshake_vars s"
  by (simp add: sendReady_def)

lemma initEditMode_initialized:
  "hasWindow s \<Longrightarrow> initialized s \<Longrightarrow>
   initEditMode s =
     (case cleanupFn s of Some h \<Rightarrow> Cleanup h | None \<Rightarrow> Noop,
      s\<lparr>console := console s @ [ConsoleLog [''[VlibeEditMode] Already initialized, skipping'']]\<rparr>)"
  by (simp add: initEditMode_def console_log_def)

lemma initEditMode_fresh:
  assumes "hasWindow s" and "\<not> initialized s"
  shows "fst (initEditMode s) = Cleanup (nextHandle s)"
    and "cleanupFn (snd (initEditMode s)) = Some (nextHandle s)"
    and "initialized (snd (initEditMode s))"
    and "hasWindow (snd (initEditMode s))"
  using assms handshake_vars_fields [OF sendReady_handshake]
  by (simp_all add: initEditMode_def Let_def console_log_def)

lemma step_init_inv:
  assumes "hasWindow s \<and> (initialized s \<longrightarrow> cleanupFn s \<noteq> None)"
  shows "hasWindow (step B e s) \<and> (initialized (step B e s) \<longrightarrow> cleanupFn (step B e s) \<noteq> None)"
proof (cases e)
  case (MessageEvent d)
  let ?s' = "fold (run_listener B d) (windowListeners s) s"
  have "hasWindow ?s' = hasWindow s \<and> initialized ?s' = initialized s \<and> cleanupFn ?s' = cleanupFn s"
    using fold_listeners_vars [of B d "windowListeners s" s]
  proof
    assume v: "handshake_vars ?s' = handshake_vars s"
    from handshake_vars_fields(7,8,9) [OF v] show ?thesis by simp
  next
    assume v: "handshake_vars ?s' = handshake_vars (acknowledge s)"
    from handshake_vars_fields(7,8,9) [OF v] show ?thesis by simp
  qed
  with MessageEvent assms show ?thesis by (simp add: dispatch_message_def)
next
  case (MouseMove now target up)
  with assms handshake_vars_fields(7,8,9) [OF handleMouseMove_handshake] show ?thesis by simp
next
  case (Click target up)
  with assms handshake_vars_fields(7,8,9) [OF handleClick_handshake] show ?thesis by simp
next
  case MouseLeave
  with assms handshake_vars_fields(7,8,9) [OF handleMouseLeave_handshake] show ?thesis by simp
next
  case (IntervalFires t)
  with assms handshake_vars_fields(7,8,9) [OF sendReady_handshake] show ?thesis by simp
next
  case (TimeoutFires t)
  with assms show ?thesis by simp
next
  case CallInit
  show ?thesis
  proof (cases "initialized s")
    case True
    with assms CallInit show ?thesis by (simp add: initEditMode_initialized)
  next
    case False
    with assms CallInit initEditMode_fresh [of s] show ?thesis by simp
  qed
next
  case (CallTeardown h)
  with assms show ?thesis by (cases h) (simp_all add: call_handle_def)
qed

lemma run_init_inv:
  "hasWindow s \<and> (initialized s \<longrightarrow> cleanupFn s \<noteq> None) \<Longrightarrow>
   hasWindow (run B evs s) \<and> (initialized (run B evs s) \<longrightarrow> cleanupFn (run B evs s) \<noteq> None)"
proof (induction evs arbitrary: s)
  case Nil
  then show ?case by (simp add: run_def)
next
  case (Cons e evs)
  from Cons.IH [OF step_init_inv [OF Cons.prems, of B e]] show ?case
    by (simp add: run_def)
qed

text \<open>
  C7. When the flag on \<open>window\<close> is set, \<open>initEditMode\<close> returns the closure stored in
  \<open>cleanupFn\<close> (the no-op when there is none) and changes nothing but the console, to
  which it adds one line. In every state that the module reaches from its loading, a
  set flag comes with a stored closure, the one that the initialising call returned: the
  handle returned is that one, and the listeners, the document with its overlays, the
  timers and the posted messages are as before.
\<close>

theorem init_when_initialized:
  "(hasWindow s \<and> initialized s \<longrightarrow>
      initEditMode s =
        (case cleanupFn s of Some h \<Rightarrow> Cleanup h | None \<Rightarrow> Noop,
         s\<lparr>console := console s @ [ConsoleLog [''[VlibeEditMode] Already initialized, skipping'']]\<rparr>)) \<and>
   (hasWindow s \<and> \<not> initialized s \<longrightarrow>
      (\<exists>h. fst (initEditMode s) = Cleanup h \<and> cleanupFn (snd (initEditMode s)) = Some h \<and>
           initialized (snd (initEditMode s)))) \<and>
   (s = run B evs (module_load doc b fresh) \<and> initialized s \<longrightarrow>
      (\<exists>h. cleanupFn s = Some h \<and> fst (initEditMode s) = Cleanup h) \<and>
      windowListeners (snd (initEditMode s)) = windowListeners s \<and>
      documentListeners (snd (initEditMode s)) = documentListeners s \<and>
      document (snd (initEditMode s)) = document s \<and>
      highlightOverlay (snd (initEditMode s)) = highlightOverlay s \<and>
      selectionOverlay (snd (initEditMode s)) = selectionOverlay s \<and>
      readyInterval (snd (initEditMode s)) = readyInterval s \<and>
      intervals (snd (initEditMode s)) = intervals s \<and>
      timeouts (snd (initEditMode s)) = timeouts s \<and>
      outbox (snd (initEditMode s)) = outbox s)"
proof -
  have again: "hasWindow s \<and> initialized s \<longrightarrow>
      initEditMode s =
        (case cleanupFn s of Some h \<Rightarrow> Cleanup h | None \<Rightarrow> Noop,
         s\<lparr>console := console s @ [ConsoleLog [''[VlibeEditMode] Already initialized, skipping'']]\<rparr>)"
    by (simp add: initEditMode_initialized)
  have first: "hasWindow s \<and> \<not> initialized s \<longrightarrow>
      (\<exists>h. fst (initEditMode s) = Cleanup h \<and> cleanupFn (snd (initEditMode s)) = Some h \<and>
           initialized (snd (initEditMode s)))"
    using initEditMode_fresh [of s] by blast
  have reach: "s = run B evs (module_load doc b fresh) \<and> initialized s \<longrightarrow>
      (\<exists>h. cleanupFn s = Some h \<and> fst (initEditMode s) = Cleanup h) \<and>
      windowListeners (snd (initEditMode s)) = windowListeners s \<and>
      documentListeners (snd (initEditMode s)) = documentListeners s \<and>
      document (snd (initEditMode s)) = document s \<and>
      highlightOverlay (snd (initEditMode s)) = highlightOverlay s \<and>
      selectionOverlay (snd (initEditMode s)) = selectionOverlay s \<and>
      readyInterval (snd (initEditMode s)) = readyInterval s \<and>
      intervals (snd (initEditMode s)) = intervals s \<and>
      timeouts (snd (initEditMode s)) = timeouts s \<and>
      outbox (snd (initEditMode s)) = outbox s"
  proof
    assume a: "s = run B evs (module_load doc b fresh) \<and> initialized s"
    have "hasWindow (module_load doc b fresh) \<and>
        (initialized (module_load doc b fresh) \<longrightarrow> cleanupFn (module_load doc b fresh) \<noteq> None)"
      by (simp add: module_load_def)
    from run_init_inv [OF this, of B evs] a
    have "hasWindow s \<and> (initialized s \<longrightarrow> cleanupFn s \<noteq> None)" by blast
    with a have w: "hasWindow s" and c: "cleanupFn s \<noteq> None" by blast+
    from c obtain h where h: "cleanupFn s = Some h" by auto
    from a have i: "initialized s" by blast
    have eq: "initEditMode s =
        (case cleanupFn s of Some h \<Rightarrow> Cleanup h | None \<Rightarrow> Noop,
         s\<lparr>console := console s @ [ConsoleLog [''[VlibeEditMode] Already initialized, skipping'']]\<rparr>)"
      by (rule initEditMode_initialized [OF w i])
    show "(\<exists>h. cleanupFn s = Some h \<and> fst (initEditMode s) = Cleanup h) \<and>
      windowListeners (snd (initEditMode s)) = windowListeners s \<and>
      documentListeners (snd (initEditMode s)) = documentListeners s \<and>
      document (snd (initEditMode s)) = document s \<and>
      highlightOverlay (snd (initEditMode s)) = highlightOverlay s \<and>
      selectionOverlay (snd (initEditMode s)) = selectionOverlay s \<and>
      readyInterval (snd (initEditMode s)) = readyInterval s \<and>
      intervals (snd (initEditMode s)) = intervals s \<and>
      timeouts (snd (initEditMode s)) = timeouts s \<and>
      outbox (snd (initEditMode s)) = outbox s"
      by (simp add: eq h)
  qed
  show ?thesis
    by (rule conjI [OF again conjI [OF first reach]])
qed

theorem init_when_initialized_witness:
  "sample_ready = run sample_browser [CallInit] (module_load sample_document 3 100) \<and>
   initialized sample_ready \<and>
   fst (initEditMode sample_state) = Cleanup 0 \<and>
   fst (initEditMode sample_ready) = Cleanup 0 \<and>
   windowListeners (snd (initEditMode sample_ready)) = [HandleMessage, HandleAckMessage] \<and>
   intervals (snd (initEditMode sample_ready)) = [1] \<and>
   outbox (snd (initEditMode sample_ready)) = [EDIT_MODE_READY]"
proof -
  have a: "sample_ready = run sample_browser [CallInit] (module_load sample_document 3 100)"
    by (simp add: sample_ready_def sample_state_def run_def)
  have b: "initialized sample_ready"
    by code_simp
  have c: "cleanupFn sample_ready = Some 0"
    by code_simp
  have d: "fst (initEditMode sample_state) = Cleanup 0"
    by code_simp
  have e: "windowListeners sample_ready = [HandleMessage, HandleAckMessage]"
    "intervals sample_ready = [1]" "outbox sample_ready = [EDIT_MODE_READY]"
    by code_simp+
  from init_when_initialized [of sample_ready sample_browser "[CallInit]" sample_document 3 100,
      THEN conjunct2, THEN conjunct2] a b
  have "(\<exists>h. cleanupFn sample_ready = Some h \<and> fst (initEditMode sample_ready) = Cleanup h) \<and>
      windowListeners (snd (initEditMode sample_ready)) = windowListeners sample_ready \<and>
      documentListeners (snd (initEditMode sample_ready)) = documentListeners sample_ready \<and>
      document (snd (initEditMode sample_ready)) = document sample_ready \<and>
      highlightOverlay (snd (initEditMode sample_ready)) = highlightOverlay sample_ready \<and>
      selectionOverlay (snd (initEditMode sample_ready)) = selectionOverlay sample_ready \<and>
      readyInterval (snd (initEditMode sample_ready)) = readyInterval sample_ready \<and>
      intervals (snd (initEditMode sample_ready)) = intervals sample_ready \<and>
      timeouts (snd (initEditMode sample_ready)) = timeouts sample_ready \<and>
      outbox (snd (initEditMode sample_ready)) = outbox sample_ready"
    by blast
  with c e have "fst (initEditMode sample_ready) = Cleanup 0"
    and "windowListeners (snd (initEditMode sample_ready)) = [HandleMessage, HandleAckMessage]"
    and "intervals (snd (initEditMode sample_ready)) = [1]"
    and "outbox (snd (initEditMode sample_ready)) = [EDIT_MODE_READY]"
    by auto
  with a b d show ?thesis
    by (intro conjI)
qed

lemma cleanup_explicit:
  "cleanup s =
     s\<lparr>windowListeners :=
         removeEventListener HandleAckMessage (removeEventListener HandleMessage (windowListeners s)),
       intervals := (case readyInterval s of None \<Rightarrow> intervals s | Some t \<Rightarrow> removeAll t (intervals s)),
       readyInterval := None,
       document :=
         (case selectionOverlay s of None \<Rightarrow> (\<lambda>d. d) | Some r \<Rightarrow> remove_node r)
           ((case highlightOverlay s of None \<Rightarrow> (\<lambda>d. d) | Some r \<Rightarrow> remove_node r) (document s)),
       highlightOverlay := None,
       selectionOverlay := None,
       initialized := False\<rparr>"
  by (cases "readyInterval s"; cases "highlightOverlay s"; cases "selectionOverlay s")
     (simp_all add: cleanup_def clearInterval_def Let_def)

lemma cleanup_idem: "cleanup (cleanup s) = cleanup s"
  by (simp add: cleanup_explicit removeEventListener_def)

lemma cleanup_message_listeners:
  "HandleMessage \<notin> set (windowListeners (cleanup s))"
  "HandleAckMessage \<notin> set (windowListeners (cleanup s))"
  by (simp_all add: cleanup_explicit removeEventListener_def)

lemma cleanup_timer:
  "readyInterval (cleanup s) = None"
  "readyInterval s = Some t \<Longrightarrow> t \<notin> set (intervals (cleanup s))"
  by (simp_all add: cleanup_explicit)

lemma cleanup_overlay_vars:
  "highlightOverlay (cleanup s) = None"
  "selectionOverlay (cleanup s) = None"
  by (simp_all add: cleanup_explicit)

lemma cleanup_untouched:
  "selectedElement (cleanup s) = selectedElement s"
  "lastHoveredElement (cleanup s) = lastHoveredElement s"
  "documentListeners (cleanup s) = documentListeners s"
  "isEditModeActive (cleanup s) = isEditModeActive s"
  by (simp_all add: cleanup_explicit)

lemma cleanup_document:
  "document (cleanup s) =
     (case selectionOverlay s of None \<Rightarrow> (\<lambda>d. d) | Some r \<Rightarrow> remove_node r)
       ((case highlightOverlay s of None \<Rightarrow> (\<lambda>d. d) | Some r \<Rightarrow> remove_node r) (document s))"
  by (simp add: cleanup_explicit)

lemma cleanup_overlay_nodes:
  assumes "highlightOverlay s = Some r \<or> selectionOverlay s = Some r"
  shows "r \<notin> set (refs_below (document (cleanup s)))"
proof -
  have not_in: "r \<notin> set (refs_below (remove_node r d))" for d
    using refs_below_remove_node [of r d] by auto
  have keep: "r \<notin> set (refs_below d) \<Longrightarrow> r \<notin> set (refs_below (remove_node q d))" for q d
    using refs_below_remove_node [of q d] by auto
  show ?thesis
  proof (cases "selectionOverlay s = Some r")
    case True
    then show ?thesis by (simp add: cleanup_document not_in)
  next
    case False
    with assms have "highlightOverlay s = Some r" by simp
    then show ?thesis
      by (cases "selectionOverlay s") (simp_all add: cleanup_document not_in keep)
  qed
qed

lemma teardown_removes:
  assumes "hasWindow s0" and "\<not> initialized s0"
  shows "let s' = call_handle (fst (initEditMode s0)) s
     in HandleMessage \<notin> set (windowListeners s') \<and>
        HandleAckMessage \<notin> set (windowListeners s') \<and>
        readyInterval s' = None \<and>
        (\<forall>t. readyInterval s = Some t \<longrightarrow> t \<notin> set (intervals s')) \<and>
        highlightOverlay s' = None \<and> selectionOverlay s' = None \<and>
        (\<forall>r. highlightOverlay s = Some r \<or> selectionOverlay s = Some r \<longrightarrow>
             r \<notin> set (refs_below (document s'))) \<and>
        \<not> initialized s' \<and>
        call_handle (fst (initEditMode s0)) s' = s'"
proof -
  from initEditMode_fresh(1) [OF assms]
  have call: "call_handle (fst (initEditMode s0)) x = cleanup x" for x
    by (simp add: call_handle_def)
  have nodes: "\<forall>r. highlightOverlay s = Some r \<or> selectionOverlay s = Some r \<longrightarrow>
             r \<notin> set (refs_below (document (cleanup s)))"
    using cleanup_overlay_nodes [of s] by blast
  have timer: "\<forall>t. readyInterval s = Some t \<longrightarrow> t \<notin> set (intervals (cleanup s))"
    by (simp add: cleanup_timer)
  have flag: "\<not> initialized (cleanup s)"
    by (simp add: cleanup_explicit)
  show ?thesis
    unfolding Let_def call
    by (intro conjI cleanup_message_listeners cleanup_timer(1) timer cleanup_overlay_vars nodes flag
        cleanup_idem)
qed

lemma sample_torn_down_removed:
  "windowListeners sample_torn_down = []"
  "highlightOverlay sample_torn_down = None"
  "selectionOverlay sample_torn_down = None"
  "\<not> initialized sample_torn_down"
  by code_simp+

lemma sample_torn_down_left:
  "isEditModeActive sample_torn_down"
  "selectedElement sample_torn_down = Some 6"
  "lastHoveredElement sample_torn_down = Some 9"
  "documentListeners sample_torn_down =
     [(''mousemove'', HandleMouseMove, False), (''click'', HandleClick, True),
      (''mouseleave'', HandleMouseLeave, False)]"
  by code_simp+

lemma sample_click_after_teardown_handled:
  "length (outbox sample_torn_down) = 3"
  "length (outbox sample_click_after_teardown) = 4"
  "case last (outbox sample_click_after_teardown) of ELEMENT_CLICKED i \<Rightarrow> True | _ \<Rightarrow> False"
  "selectionOverlay sample_click_after_teardown = Some 102"
  by code_simp+

lemma sample_disable_clears:
  "\<not> isEditModeActive (disableEditMode sample_browser sample_selected)"
  "selectedElement (disableEditMode sample_browser sample_selected) = None"
  "lastHoveredElement (disableEditMode sample_browser sample_selected) = None"
  "documentListeners (disableEditMode sample_browser sample_selected) = []"
  by code_simp+

text \<open>
  C3. The teardown handle is to remove the message listeners, the retry timer, both
  overlays and the flag, and also to clear the selected and the last hovered element and
  to detach the pointer listeners. The code does the first part (\<open>teardown_removes\<close>) and
  misses the second, which \<open>disableEditMode\<close> does. In the sample page, after
  \<open>EDIT_MODE_ENABLE\<close>, a click on the span and a pointer move over the image, the handle
  leaves edit mode active, the span selected, the image hovered and the three pointer
  listeners attached; the next click is still handled: it posts \<open>ELEMENT_CLICKED\<close> and
  creates a selection overlay again. \<open>disableEditMode\<close> in the same state clears all of
  these.
\<close>

theorem teardown_leaves_edit_mode_on:
  "windowListeners sample_torn_down = [] \<and>
   highlightOverlay sample_torn_down = None \<and>
   selectionOverlay sample_torn_down = None \<and>
   \<not> initialized sample_torn_down \<and>
   isEditModeActive sample_torn_down \<and>
   selectedElement sample_torn_down = Some 6 \<and>
   lastHoveredElement sample_torn_down = Some 9 \<and>
   documentListeners sample_torn_down =
     [(''mousemove'', HandleMouseMove, False), (''click'', HandleClick, True),
      (''mouseleave'', HandleMouseLeave, False)] \<and>
   length (outbox sample_torn_down) = 3 \<and>
   length (outbox sample_click_after_teardown) = 4 \<and>
   (case last (outbox sample_click_after_teardown) of ELEMENT_CLICKED i \<Rightarrow> True | _ \<Rightarrow> False) \<and>
   selectionOverlay sample_click_after_teardown = Some 102 \<and>
   \<not> isEditModeActive (disableEditMode sample_browser sample_selected) \<and>
   selectedElement (disableEditMode sample_browser sample_selected) = None \<and>
   lastHoveredElement (disableEditMode sample_browser sample_selected) = None \<and>
   documentListeners (disableEditMode sample_browser sample_selected) = []"
  by (intro conjI sample_torn_down_removed sample_torn_down_left
      sample_click_after_teardown_handled sample_disable_clears)

section \<open>Clearing the selection\<close>

lemma setProperty_idem: "setProperty k v (setProperty k v ps) = setProperty k v ps"
  by (induction ps) auto

lemma set_style_idem: "set_style k v (set_style k v n) = set_style k v n"
  by (cases n) (auto simp: setProperty_idem)

lemma set_style_nodeType: "nodeType (set_style k v n) = nodeType n"
  by (cases n) auto

lemma hide_twice:
  "update_node r (set_style k v) (update_node r (set_style k v) d) = update_node r (set_style k v) d"
  by (rule update_node_idem) (simp_all add: set_style_nref set_style_idem)

lemma clearSelection_existing:
  "selectedElement s = None \<Longrightarrow> selectionOverlay s = Some ov \<Longrightarrow>
   clearSelection B s = s\<lparr>document := update_node ov (set_style ''display'' ''none'') (document s)\<rparr>"
  by (simp add: clearSelection_def updateSelectionOverlay_def set_inline_style_def)

lemma clearSelection_created:
  "selectedElement s = None \<Longrightarrow> selectionOverlay s = None \<Longrightarrow>
   clearSelection B s =
     s\<lparr>selectionOverlay := Some (nextRef s),
       nextRef := nextRef s + 1,
       document :=
         update_node (nextRef s) (set_style ''display'' ''none'')
           (appendChild (body s)
              (Element (nextRef s) ''DIV'' ''__vlibe_edit_selection__'' (Some []) None selection_cssText [])
              (document s))\<rparr>"
  by (simp add: clearSelection_def updateSelectionOverlay_def set_inline_style_def
      createSelectionOverlay_def Let_def)

text \<open>
  C9. \<open>CLEAR_SELECTION\<close> with no element selected leaves the engine state as it is: the
  active flag, the selected element (\<open>null\<close>), the last hovered element, the time of the
  last frame and \<open>readyAcknowledged\<close> are unchanged, and nothing is posted or logged. The
  selection overlay is hidden afterwards: if it exists, the whole state is as before but
  for its inline \<open>display\<close>, which becomes \<open>none\<close>; if it does not exist yet, it is created
  with \<open>display: none\<close> and appended to the body, and nothing else changes. Receiving the
  command again changes nothing.
\<close>

theorem clear_selection_without_selection:
  assumes "mtype m = Some ''CLEAR_SELECTION''" and "selectedElement s = None"
  shows "let s' = handleMessage B (Some m) s
     in isEditModeActive s' = isEditModeActive s \<and>
        selectedElement s' = None \<and>
        lastHoveredElement s' = lastHoveredElement s \<and>
        lastFrameTime s' = lastFrameTime s \<and>
        readyAcknowledged s' = readyAcknowledged s \<and>
        outbox s' = outbox s \<and> console s' = console s \<and>
        (\<forall>ov. selectionOverlay s = Some ov \<longrightarrow>
           s' = s\<lparr>document := update_node ov (set_style ''display'' ''none'') (document s)\<rparr>) \<and>
        (selectionOverlay s = None \<longrightarrow>
           s' = s\<lparr>selectionOverlay := Some (nextRef s),
                  nextRef := nextRef s + 1,
                  document :=
                    update_node (nextRef s) (set_style ''display'' ''none'')
                      (appendChild (body s)
                         (Element (nextRef s) ''DIV'' ''__vlibe_edit_selection__'' (Some []) None
                            selection_cssText [])
                         (document s))\<rparr>) \<and>
        (\<exists>ov. selectionOverlay s' = Some ov \<and>
           (\<forall>e. find_node ov (document s') = Some e \<and> nodeType e = ELEMENT_NODE \<longrightarrow>
                map_of (style e) ''display'' = Some ''none'')) \<and>
        handleMessage B (Some m) s' = s'"
proof -
  have hm: "handleMessage B (Some m) x = clearSelection B x" for x
    using assms(1) by (simp add: handleMessage_def)
  have hidden: "find_node ov (update_node ov (set_style ''display'' ''none'') d) = Some e \<Longrightarrow>
      nodeType e = ELEMENT_NODE \<Longrightarrow> map_of (style e) ''display'' = Some ''none''" for ov d e
    by (auto simp: find_update_node set_style_nref set_style_nodeType style_set_style)
  define s' where "s' = clearSelection B s"
  show ?thesis
  proof (cases "selectionOverlay s")
    case None
    note eq = clearSelection_created [OF assms(2) None, of B]
    have form: "s' = s\<lparr>selectionOverlay := Some (nextRef s),
                  nextRef := nextRef s + 1,
                  document :=
                    update_node (nextRef s) (set_style ''display'' ''none'')
                      (appendChild (body s)
                         (Element (nextRef s) ''DIV'' ''__vlibe_edit_selection__'' (Some []) None
                            selection_cssText [])
                         (document s))\<rparr>"
      by (simp add: s'_def eq)
    have sel: "selectedElement s' = None" and ov: "selectionOverlay s' = Some (nextRef s)"
      using assms(2) by (simp_all add: form)
    have same: "isEditModeActive s' = isEditModeActive s" "lastHoveredElement s' = lastHoveredElement s"
      "lastFrameTime s' = lastFrameTime s" "readyAcknowledged s' = readyAcknowledged s"
      "outbox s' = outbox s" "console s' = console s"
      by (simp_all add: form)
    have doc: "document s' = update_node (nextRef s) (set_style ''display'' ''none'')
           (appendChild (body s)
              (Element (nextRef s) ''DIV'' ''__vlibe_edit_selection__'' (Some []) None selection_cssText [])
              (document s))"
      by (simp add: form)
    have again: "clearSelection B s' = s'"
      by (simp add: clearSelection_existing [OF sel ov] doc hide_twice)
    have vis: "\<forall>e. find_node (nextRef s) (document s') = Some e \<and> nodeType e = ELEMENT_NODE \<longrightarrow>
                map_of (style e) ''display'' = Some ''none''"
      unfolding doc using hidden by blast
    from ov vis have ex: "\<exists>ov. selectionOverlay s' = Some ov \<and>
           (\<forall>e. find_node ov (document s') = Some e \<and> nodeType e = ELEMENT_NODE \<longrightarrow>
                map_of (style e) ''display'' = Some ''none'')"
      by blast
    have none: "\<forall>ov. selectionOverlay s = Some ov \<longrightarrow>
           s' = s\<lparr>document := update_node ov (set_style ''display'' ''none'') (document s)\<rparr>"
      using None by simp
    from same sel none form ex again show ?thesis
      unfolding Let_def hm s'_def [symmetric] by (intro conjI impI)
  next
    case (Some ov)
    note eq = clearSelection_existing [OF assms(2) Some, of B]
    have only: "s' = s\<lparr>document := update_node ov (set_style ''display'' ''none'') (document s)\<rparr>"
      by (simp add: s'_def eq)
    have sel: "selectedElement s' = None" and ov: "selectionOverlay s' = Some ov"
      using assms(2) Some by (simp_all add: only)
    have same: "isEditModeActive s' = isEditModeActive s" "lastHoveredElement s' = lastHoveredElement s"
      "lastFrameTime s' = lastFrameTime s" "readyAcknowledged s' = readyAcknowledged s"
      "outbox s' = outbox s" "console s' = console s"
      by (simp_all add: only)
    have doc: "document s' = update_node ov (set_style ''display'' ''none'') (document s)"
      by (simp add: only)
    have again: "clearSelection B s' = s'"
      by (simp add: clearSelection_existing [OF sel ov] doc hide_twice)
    have vis: "\<forall>e. find_node ov (document s') = Some e \<and> nodeType e = ELEMENT_NODE \<longrightarrow>
                map_of (style e) ''display'' = Some ''none''"
      unfolding doc using hidden by blast
    from ov vis have ex: "\<exists>ov. selectionOverlay s' = Some ov \<and>
           (\<forall>e. find_node ov (document s') = Some e \<and> nodeType e = ELEMENT_NODE \<longrightarrow>
                map_of (style e) ''display'' = Some ''none'')"
      by blast
    have some: "\<forall>ov. selectionOverlay s = Some ov \<longrightarrow>
           s' = s\<lparr>document := update_node ov (set_style ''display'' ''none'') (document s)\<rparr>"
      using Some only by simp
    have created: "selectionOverlay s = None \<longrightarrow>
           s' = s\<lparr>selectionOverlay := Some (nextRef s),
                  nextRef := nextRef s + 1,
                  document :=
                    update_node (nextRef s) (set_style ''display'' ''none'')
                      (appendChild (body s)
                         (Element (nextRef s) ''DIV'' ''__vlibe_edit_selection__'' (Some []) None
                            selection_cssText [])
                         (document s))\<rparr>"
      using Some by simp
    from same sel some created ex again show ?thesis
      unfolding Let_def hm s'_def [symmetric] by (intro conjI)
  qed
qed

theorem clear_selection_without_selection_witness:
  "mtype sample_clear = Some ''CLEAR_SELECTION'' \<and>
   selectedElement sample_ready = None \<and> selectionOverlay sample_ready = None \<and>
   (let s' = handleMessage sample_browser (Some sample_clear) sample_ready
    in selectedElement s' = None \<and> selectionOverlay s' = Some 100 \<and>
       display_of 100 (document s') = Some ''none'' \<and>
       outbox s' = outbox sample_ready \<and> console s' = console sample_ready \<and>
       handleMessage sample_browser (Some sample_clear) s' = s') \<and>
   selectedElement sample_active = None \<and> selectionOverlay sample_active = Some 101 \<and>
   display_of 101 (document sample_active) = Some ''none'' \<and>
   handleMessage sample_browser (Some sample_clear) sample_active = sample_active"
proof -
  define s' where "s' = handleMessage sample_browser (Some sample_clear) sample_ready"
  have a: "mtype sample_clear = Some ''CLEAR_SELECTION''"
    by code_simp
  have b: "selectedElement sample_ready = None" and c: "selectionOverlay sample_ready = None"
    by code_simp+
  have d: "display_of 100 (document s') = Some ''none''"
    unfolding s'_def by code_simp
  have ov: "selectionOverlay s' = Some 100"
    unfolding s'_def by code_simp
  have e: "selectedElement sample_active = None" and f: "selectionOverlay sample_active = Some 101"
    and g: "display_of 101 (document sample_active) = Some ''none''"
    by code_simp+
  have h: "update_node 101 (set_style ''display'' ''none'') (document sample_active) = document sample_active"
    by code_simp
  from clear_selection_without_selection [OF a b, of sample_browser]
  have i: "selectedElement s' = None" and j: "outbox s' = outbox sample_ready"
    and k: "console s' = console sample_ready"
    and l: "handleMessage sample_browser (Some sample_clear) s' = s'"
    unfolding Let_def s'_def by blast+
  from clear_selection_without_selection [OF a e, of sample_browser] f
  have "handleMessage sample_browser (Some sample_clear) sample_active =
     sample_active\<lparr>document :=
       update_node 101 (set_style ''display'' ''none'') (document sample_active)\<rparr>"
    unfolding Let_def by blast
  with h have m: "handleMessage sample_browser (Some sample_clear) sample_active = sample_active"
    by simp
  from a b c i ov d j k l e f g m show ?thesis
    unfolding Let_def s'_def by (intro conjI)
qed

end
